theory Spec2Isabelle
  imports Main "HOL-Library.Multiset" "HOL-Library.Sublist"
begin

section \<open>JavaScript values and JSON serialisation\<close>

text \<open>
  The values a field of a push payload can hold. \<open>JNum\<close> carries the integral numbers
  the application uses (identifiers, millisecond timestamps).
\<close>

datatype jsval = JUndefined | JNull | JBool bool | JNum int | JStr string

text \<open>
  A numeric field of an issue as \<^verbatim>\<open>Number.isFinite\<close> sees it: absent (or not a number),
  a number that is not finite (\<^verbatim>\<open>NaN\<close>, \<^verbatim>\<open>Infinity\<close>), or a finite number; finite
  numbers are millisecond timestamps and are modelled as integers.
\<close>

datatype jsnum = Missing | NonFinite | Finite int

definition isFinite :: "jsnum \<Rightarrow> bool" where
  "isFinite v = (case v of Finite n \<Rightarrow> True | _ \<Rightarrow> False)"

text \<open>
  \<^verbatim>\<open>JSON.stringify\<close> on a string: the double quote and the backslash are escaped
  (strings of the application carry no control characters).
\<close>

definition json_escape :: "char \<Rightarrow> string" where
  "json_escape c =
     (if c = CHR 0x22 then [CHR 0x5C, CHR 0x22]
      else if c = CHR 0x5C then [CHR 0x5C, CHR 0x5C]
      else [c])"

definition json_quote :: "string \<Rightarrow> string" where
  "json_quote s = CHR 0x22 # concat (map json_escape s) @ [CHR 0x22]"

fun join_with :: "string \<Rightarrow> string list \<Rightarrow> string" where
  "join_with sep [] = []"
| "join_with sep [x] = x"
| "join_with sep (x # y # ys) = x @ sep @ join_with sep (y # ys)"

definition json_stringify_strings :: "string list \<Rightarrow> string" where
  "json_stringify_strings xs = ''['' @ join_with '','' (map json_quote xs) @ '']''"

text \<open>
  A query specification \<^verbatim>\<open>{ type, params? }\<close>. The only parameters the application
  sends are string valued (\<^verbatim>\<open>{ id }\<close> of an issue detail).
\<close>

record spec =
  sp_type :: string
  sp_params :: "(string \<times> string) list option"

definition json_stringify_spec :: "spec \<Rightarrow> string" where
  "json_stringify_spec sp =
     ''{'' @ json_quote ''type'' @ '':'' @ json_quote (sp_type sp)
     @ (case sp_params sp of
          None \<Rightarrow> []
        | Some ps \<Rightarrow>
            '','' @ json_quote ''params'' @ '':{''
            @ join_with '','' (map (\<lambda>(k, v). json_quote k @ '':'' @ json_quote v) ps)
            @ ''}'')
     @ ''}''"

section \<open>Issues\<close>

text \<open>
  The \<^verbatim>\<open>Issue\<close>/\<^verbatim>\<open>IssueLite\<close> shape of the views: \<^verbatim>\<open>id\<close> is always present, the other
  fields are optional.
\<close>

record issue =
  issue_id :: string
  title :: "string option"
  status :: "string option"
  priority :: "int option"
  issue_type :: "string option"
  labels :: "string list option"
  closed_at :: jsnum

section \<open>Application state store (app/state.js)\<close>

text \<open>
  The value of \<^verbatim>\<open>filters.status\<close> and of \<^verbatim>\<open>filters.type\<close>: a string, as the typedefs
  of state.js say, or an array of strings, as the list view writes them
  (\<^verbatim>\<open>setState({ filters: { status: status_filters } })\<close>). An array is an object: it has
  an identity (a reference, here a number), and \<^verbatim>\<open>===\<close> on two arrays compares the
  identities, not the elements.
\<close>

datatype fval = FStr string | FArr nat "string list"

definition strict_eq :: "fval \<Rightarrow> fval \<Rightarrow> bool" where
  "strict_eq x y =
     (case x of
        FStr a \<Rightarrow> (case y of FStr b \<Rightarrow> a = b | FArr r ys \<Rightarrow> False)
      | FArr r xs \<Rightarrow> (case y of FStr b \<Rightarrow> False | FArr r' ys \<Rightarrow> r = r'))"

text \<open>The state; the other fields have the types of the JSDoc typedefs of state.js.\<close>

record Filters =
  f_status :: fval
  f_search :: string
  f_type :: fval
  f_client :: "string list"
  f_work :: "string list"

record BoardState =
  closed_filter :: string

record WorkspaceInfo =
  wi_path :: string
  wi_database :: string
  wi_pid :: "int option"
  wi_version :: "string option"

record WorkspaceState =
  current :: "WorkspaceInfo option"
  available :: "WorkspaceInfo list"

record AppState =
  selected_id :: "string option"
  view :: string
  filters :: Filters
  board :: BoardState
  workspace :: WorkspaceState

text \<open>
  A patch given to \<^verbatim>\<open>setState\<close>: every key may be absent (\<open>None\<close>).
  \<^verbatim>\<open>selected_id\<close> and \<^verbatim>\<open>workspace.current\<close> may also be present with the value
  \<^verbatim>\<open>null\<close> (\<open>Some None\<close>).
\<close>

record FiltersPatch =
  pf_status :: "fval option"
  pf_search :: "string option"
  pf_type :: "fval option"
  pf_client :: "string list option"
  pf_work :: "string list option"

record BoardPatch =
  pb_closed_filter :: "string option"

record WorkspacePatch =
  pw_current :: "WorkspaceInfo option option"
  pw_available :: "WorkspaceInfo list option"

record Patch =
  p_selected_id :: "string option option"
  p_view :: "string option"
  p_filters :: "FiltersPatch option"
  p_board :: "BoardPatch option"
  p_workspace :: "WorkspacePatch option"

text \<open>
  A subscriber is a callback, identified by a number (the \<^verbatim>\<open>Set\<close> holds each function
  once, in insertion order); called on a state it returns or throws.
\<close>

datatype outcome = Returned | Thrown

record subscriber =
  sub_id :: nat
  run_sub :: "AppState \<Rightarrow> outcome"

record store =
  state :: AppState
  subs :: "subscriber list"

definition or_else :: "'a option \<Rightarrow> 'a \<Rightarrow> 'a" where
  "or_else p d = (case p of None \<Rightarrow> d | Some v \<Rightarrow> v)"

text \<open>The object spreads of \<^verbatim>\<open>setState\<close>: a key of the patch overrides the state's.\<close>

definition merge_filters :: "Filters \<Rightarrow> FiltersPatch option \<Rightarrow> Filters" where
  "merge_filters f p =
     (case p of
        None \<Rightarrow> f
      | Some q \<Rightarrow>
          \<lparr>f_status = or_else (pf_status q) (f_status f),
           f_search = or_else (pf_search q) (f_search f),
           f_type = or_else (pf_type q) (f_type f),
           f_client = or_else (pf_client q) (f_client f),
           f_work = or_else (pf_work q) (f_work f)\<rparr>)"

definition merge_board :: "BoardState \<Rightarrow> BoardPatch option \<Rightarrow> BoardState" where
  "merge_board b p =
     (case p of
        None \<Rightarrow> b
      | Some q \<Rightarrow> \<lparr>closed_filter = or_else (pb_closed_filter q) (closed_filter b)\<rparr>)"

definition merge_workspace :: "WorkspaceState \<Rightarrow> WorkspacePatch option \<Rightarrow> WorkspaceState" where
  "merge_workspace w p =
     \<lparr>current = (case p of Some q \<Rightarrow> or_else (pw_current q) (current w) | None \<Rightarrow> current w),
      available = (case p of Some q \<Rightarrow> or_else (pw_available q) (available w) | None \<Rightarrow> available w)\<rparr>"

definition merge_state :: "AppState \<Rightarrow> Patch \<Rightarrow> AppState" where
  "merge_state s patch =
     \<lparr>selected_id = or_else (p_selected_id patch) (selected_id s),
      view = or_else (p_view patch) (view s),
      filters = merge_filters (filters s) (p_filters patch),
      board = merge_board (board s) (p_board patch),
      workspace = merge_workspace (workspace s) (p_workspace patch)\<rparr>"

text \<open>
  \<^verbatim>\<open>emit\<close>: every subscriber of a copy of the set is called with the state inside
  \<^verbatim>\<open>try { fn(state) } catch { }\<close>: a throw is caught and the loop goes on. The result
  is the list of calls made, each with its outcome.
\<close>

fun emit :: "subscriber list \<Rightarrow> AppState \<Rightarrow> (nat \<times> AppState \<times> outcome) list" where
  "emit [] s = []"
| "emit (fn # rest) s =
     (case run_sub fn s of
        Returned \<Rightarrow> (sub_id fn, s, Returned) # emit rest s
      | Thrown \<Rightarrow> (sub_id fn, s, Thrown) # emit rest s)"

text \<open>
  The shallow comparison of \<^verbatim>\<open>setState\<close>: \<open>True\<close> when nothing it looks at changed.
  Every comparison is \<^verbatim>\<open>===\<close>, on strings and \<^verbatim>\<open>null\<close> everywhere but on the status
  and the type, which may be arrays.
\<close>

definition nothing_changed :: "AppState \<Rightarrow> AppState \<Rightarrow> bool" where
  "nothing_changed next s =
     (let workspace_changed =
            (map_option wi_path (current (workspace next))
               \<noteq> map_option wi_path (current (workspace s))
             \<or> length (available (workspace next)) \<noteq> length (available (workspace s)));
          client_changed =
            (json_stringify_strings (f_client (filters next))
               \<noteq> json_stringify_strings (f_client (filters s)));
          work_changed =
            (json_stringify_strings (f_work (filters next))
               \<noteq> json_stringify_strings (f_work (filters s)))
      in selected_id next = selected_id s
         \<and> view next = view s
         \<and> strict_eq (f_status (filters next)) (f_status (filters s))
         \<and> f_search (filters next) = f_search (filters s)
         \<and> strict_eq (f_type (filters next)) (f_type (filters s))
         \<and> \<not> client_changed
         \<and> \<not> work_changed
         \<and> closed_filter (board next) = closed_filter (board s)
         \<and> \<not> workspace_changed)"

text \<open>
  \<^verbatim>\<open>setState\<close> returns the store and the subscriber calls it made (the debug log line
  is not part of the model).
\<close>

definition setState :: "store \<Rightarrow> Patch \<Rightarrow> store \<times> (nat \<times> AppState \<times> outcome) list" where
  "setState st patch =
     (let next = merge_state (state st) patch
      in if nothing_changed next (state st) then (st, [])
         else (st\<lparr>state := next\<rparr>, emit (subs st) next))"

definition subscribe :: "store \<Rightarrow> subscriber \<Rightarrow> store" where
  "subscribe st fn =
     (if sub_id fn \<in> set (map sub_id (subs st)) then st
      else st\<lparr>subs := subs st @ [fn]\<rparr>)"

section \<open>Issues tab subscription spec (app/main.js)\<close>

text \<open>
  \<^verbatim>\<open>String(v || 'all')\<close>: an empty string is falsy and gives \<^verbatim>\<open>all\<close>; an array is
  truthy, and its string is its elements joined by commas.
\<close>

definition string_or_all :: "fval \<Rightarrow> string" where
  "string_or_all v =
     (case v of
        FStr s \<Rightarrow> (if s = [] then ''all'' else s)
      | FArr r xs \<Rightarrow> join_with '','' xs)"

text \<open>
  \<^verbatim>\<open>computeIssuesSpec\<close>: the status is read as \<^verbatim>\<open>String(filters.status || 'all')\<close>.
\<close>

definition computeIssuesSpec :: "Filters \<Rightarrow> spec" where
  "computeIssuesSpec fs =
     (let st = string_or_all (f_status fs)
      in if st = ''ready'' then \<lparr>sp_type = ''ready-issues'', sp_params = None\<rparr>
         else if st = ''in_progress'' then \<lparr>sp_type = ''in-progress-issues'', sp_params = None\<rparr>
         else if st = ''closed'' then \<lparr>sp_type = ''closed-issues'', sp_params = None\<rparr>
         else \<lparr>sp_type = ''all-issues'', sp_params = None\<rparr>)"

section \<open>Sorting helper (app/data/sort.js)\<close>

definition closed_ms :: "issue \<Rightarrow> int" where
  "closed_ms it = (case closed_at it of Finite n \<Rightarrow> n | _ \<Rightarrow> 0)"

text \<open>
  Modelled from the spec: \<^verbatim>\<open>cmpClosedDesc\<close> of app/data/sort.js is not among the
  sources. The views document it as \<^verbatim>\<open>Closed: closed_at desc\<close> and the specification as
  closed-descending-by-close-time; \<^verbatim>\<open>Array.prototype.sort\<close> is stable, so sorting with
  it is a stable sort on the close time, latest first.
\<close>

definition sort_cmpClosedDesc :: "issue list \<Rightarrow> issue list" where
  "sort_cmpClosedDesc items = sort_key (\<lambda>it. - closed_ms it) items"

section \<open>Label filters shared by the views\<close>



section \<open>Issues list view (app/views/list.js)\<close>




section \<open>Board view (app/views/board.js)\<close>

record board_view =
  list_ready :: "issue list"
  list_blocked :: "issue list"
  list_in_progress :: "issue list"
  list_closed :: "issue list"
  list_closed_raw :: "issue list"
  all_issues_cache :: "issue list"
  bv_client_filters :: "string list"
  bv_work_filters :: "string list"
  closed_filter_mode :: string

text \<open>
  What \<^verbatim>\<open>new Date()\<close> gives \<^verbatim>\<open>applyClosedFilter\<close>: the current time and the start of
  the current local day (\<^verbatim>\<open>new Date(y, m, d, 0, 0, 0, 0).getTime()\<close>), in milliseconds.
\<close>

record clock =
  now_ms :: int
  local_day_start_ms :: int

definition since_ts :: "clock \<Rightarrow> string \<Rightarrow> int" where
  "since_ts clk mode =
     (if mode = ''today'' then local_day_start_ms clk
      else if mode = ''3'' then now_ms clk - 3 * 24 * 60 * 60 * 1000
      else if mode = ''7'' then now_ms clk - 7 * 24 * 60 * 60 * 1000
      else 0)"

text \<open>The predicate of the \<^verbatim>\<open>items.filter\<close> call of \<^verbatim>\<open>applyClosedFilter\<close>.\<close>

definition closed_since :: "int \<Rightarrow> issue \<Rightarrow> bool" where
  "closed_since ts it =
     (let s = (if isFinite (closed_at it) then closed_at it else NonFinite)
      in if \<not> isFinite s then False
         else (case s of Finite n \<Rightarrow> ts \<le> n | _ \<Rightarrow> False))"

definition applyClosedFilter :: "clock \<Rightarrow> board_view \<Rightarrow> board_view" where
  "applyClosedFilter clk bv =
     (let items = list_closed_raw bv;
          ts = since_ts clk (closed_filter_mode bv);
          items = filter (closed_since ts) items
      in bv\<lparr>list_closed := sort_cmpClosedDesc items\<rparr>)"



section \<open>Workspace discovery (server/registry-watcher.js)\<close>

text \<open>
  A workspace descriptor \<^verbatim>\<open>{ path, database, pid, version }\<close>; \<^verbatim>\<open>pid\<close> is a number
  or \<^verbatim>\<open>null\<close> (discovered workspaces carry \<^verbatim>\<open>null\<close>).
\<close>

record ws_descriptor =
  ws_path :: string
  ws_database :: string
  ws_pid :: "int option"
  ws_version :: string

text \<open>The \<^verbatim>\<open>RegistryEntry\<close> typedef: one entry of the registry file.\<close>

record RegistryEntry =
  workspace_path :: string
  socket_path :: string
  database_path :: string
  re_pid :: int
  re_version :: string
  started_at :: string

text \<open>
  \<^verbatim>\<open>getAvailableWorkspaces\<close>. The three sources are read from the environment
  (\<^verbatim>\<open>readRegistry()\<close>, \<^verbatim>\<open>getInMemoryWorkspaces()\<close>, \<^verbatim>\<open>discoverWorkspaces()\<close>) and are
  the list arguments here; \<^verbatim>\<open>path.resolve\<close> of the Node library is the argument
  \<open>resolve\<close>. The \<^verbatim>\<open>seen\<close> set is threaded as the code does: built from the file
  entries, then extended by the surviving in-memory entries with \<^verbatim>\<open>forEach\<close>.
\<close>

definition fileWorkspace :: "RegistryEntry \<Rightarrow> ws_descriptor" where
  "fileWorkspace entry =
     \<lparr>ws_path = workspace_path entry, ws_database = database_path entry,
      ws_pid = Some (re_pid entry), ws_version = re_version entry\<rparr>"

definition getAvailableWorkspaces ::
  "(string \<Rightarrow> string) \<Rightarrow> RegistryEntry list \<Rightarrow> ws_descriptor list \<Rightarrow> ws_descriptor list
     \<Rightarrow> ws_descriptor list" where
  "getAvailableWorkspaces resolve entries in_memory_values scanned =
     (let fileWorkspaces = map fileWorkspace entries;
          seen = set (map (\<lambda>w. resolve (ws_path w)) fileWorkspaces);
          inMemory = filter (\<lambda>w. resolve (ws_path w) \<notin> seen) in_memory_values;
          seen' = fold (\<lambda>w s. insert (resolve (ws_path w)) s) inMemory seen;
          discovered = filter (\<lambda>w. resolve (ws_path w) \<notin> seen') scanned
      in fileWorkspaces @ inMemory @ discovered)"

section \<open>Per-subscription issue stores (app/data/subscription-issue-stores.js)\<close>

text \<open>
  A push payload as the handlers of main.js read it: \<^verbatim>\<open>id\<close> and \<^verbatim>\<open>type\<close> may hold any
  value; the items of a snapshot or upsert and the ids of a delete follow the
  specification's envelope.
\<close>

record envelope =
  env_id :: jsval
  env_type :: jsval
  env_items :: "issue list"
  env_ids :: "string list"

text \<open>The state of one Entity Mirror Store.\<close>

record mirror =
  m_spec :: spec
  membership :: "string list"
  entities :: "string \<rightharpoonup> issue"

text \<open>
  Modelled from the spec: the store's upsert of one item (the file
  app/data/subscription-issue-stores.js is not among the sources). The entity is written
  under its id; an id absent from the membership is appended, a present one keeps its
  place.
\<close>

definition upsert_item :: "issue \<Rightarrow> mirror \<Rightarrow> mirror" where
  "upsert_item it m =
     m\<lparr>entities := (entities m)(issue_id it \<mapsto> it),
       membership := (if issue_id it \<in> set (membership m) then membership m
                      else membership m @ [issue_id it])\<rparr>"

text \<open>
  Modelled from the spec: the store's delete of one id (app/data/subscription-issue-stores.js, which is not among the sources). The id leaves
  the membership and its entity is dropped.
\<close>

definition delete_id :: "string \<Rightarrow> mirror \<Rightarrow> mirror" where
  "delete_id i m = m\<lparr>entities := (entities m)(i := None), membership := removeAll i (membership m)\<rparr>"

text \<open>
  Modelled from the spec: \<^verbatim>\<open>applyPush\<close> of a store (app/data/subscription-issue-stores.js, which is not among the sources). A snapshot
  replaces membership and entities wholesale, an upsert and a delete work item by item,
  in the order of the envelope.
\<close>

definition applyPush :: "mirror \<Rightarrow> envelope \<Rightarrow> mirror" where
  "applyPush m p =
     (if env_type p = JStr ''snapshot''
      then fold upsert_item (env_items p) (m\<lparr>membership := [], entities := Map.empty\<rparr>)
      else if env_type p = JStr ''upsert'' then fold upsert_item (env_items p) m
      else if env_type p = JStr ''delete'' then fold delete_id (env_ids p) m
      else m)"

type_synonym registry = "string \<rightharpoonup> mirror"

text \<open>
  Modelled from the spec: \<^verbatim>\<open>register\<close> of the registry (app/data/subscription-issue-stores.js, which is not among the sources). It creates
  an empty store when the key has none and leaves an existing store as it is.
\<close>

definition register :: "registry \<Rightarrow> string \<Rightarrow> spec \<Rightarrow> registry" where
  "register reg key sp =
     (case reg key of
        Some m \<Rightarrow> reg
      | None \<Rightarrow> reg(key \<mapsto> \<lparr>m_spec = sp, membership = [], entities = Map.empty\<rparr>))"

text \<open>
  Modelled from the spec: \<^verbatim>\<open>unregister\<close> of the registry (app/data/subscription-issue-stores.js, which is not among the sources). It
  destroys the store of the key; an unknown key is left alone.
\<close>

definition unregister :: "registry \<Rightarrow> string \<Rightarrow> registry" where
  "unregister reg key = reg(key := None)"

text \<open>
  Modelled from the spec: \<^verbatim>\<open>getStore\<close> of the registry (app/data/subscription-issue-stores.js, which is not among the sources): the store
  of the key, or \<^verbatim>\<open>null\<close>.
\<close>

definition getStore :: "registry \<Rightarrow> string \<Rightarrow> mirror option" where
  "getStore reg key = reg key"

text \<open>
  Modelled from the spec: \<^verbatim>\<open>snapshotFor\<close> of the registry (app/data/subscription-issue-stores.js, which is not among the sources): the
  entities of the key's store in membership order, nothing for an unknown key.
\<close>

definition snapshotFor :: "registry \<Rightarrow> string \<Rightarrow> issue list" where
  "snapshotFor reg key =
     (case reg key of
        None \<Rightarrow> []
      | Some m \<Rightarrow> List.map_filter (entities m) (membership m))"

section \<open>Subscription wiring (app/main.js, epics view of app/views/list.js)\<close>

text \<open>
  The release handle a resolved \<^verbatim>\<open>subscribeList(client_id, spec)\<close> gives back.
\<close>

datatype release = Release string spec

text \<open>
  What the wiring does to its collaborators, in order: calls on the registry, calls on
  the subscription manager, calls of release handles, the registry's change
  notification, the debug log and the fatal-error dialog.
\<close>

datatype effect =
    Register string spec
  | Unregister string
  | SubscribeList string spec
  | Unsubscribe release
  | Notify string
  | Log string
  | ShowFatal string

text \<open>
  The place a pending promise was created at, which fixes the code that runs when it
  settles. All but the last are promises of \<^verbatim>\<open>subscribeList\<close>; \<open>IssuesTab\<close>
  carries the spec fingerprint \<^verbatim>\<open>key\<close> and \<open>EpicExpand\<close> the epic id its
  callbacks close over. \<open>EpicCollapse\<close> is the promise of the release handle that
  the epics view's \<^verbatim>\<open>toggle\<close> awaits when it collapses an epic; it carries the epic id
  and whether the view has issue stores.
\<close>

datatype site =
    IssuesTab string
  | EpicsTab
  | BoardReady
  | BoardInProgress
  | BoardClosed
  | BoardBlocked
  | DetailDeepLink
  | DetailSelected
  | EpicExpand string
  | EpicCollapse string bool

record call =
  call_site :: site
  call_id :: string
  call_spec :: spec

text \<open>
  The variables of \<^verbatim>\<open>bootstrap\<close> that the subscription wiring reads and writes, the
  registry, the promises that have not settled yet (\<open>in_flight\<close>), and the variables
  of the epics view that its \<^verbatim>\<open>toggle\<close> uses.
\<close>

record app =
  stores :: registry
  unsub_issues_tab :: "release option"
  unsub_epics_tab :: "release option"
  unsub_board_ready :: "release option"
  unsub_board_in_progress :: "release option"
  unsub_board_closed :: "release option"
  unsub_board_blocked :: "release option"
  unsub_detail :: "release option"
  last_issues_spec_key :: "string option"
  pending_subscriptions :: "string set"
  in_flight :: "call list"
  expanded :: "string set"
  loading :: "string set"
  epic_unsubs :: "string \<rightharpoonup> release"

definition initial_app :: app where
  "initial_app =
     \<lparr>stores = Map.empty, unsub_issues_tab = None, unsub_epics_tab = None,
      unsub_board_ready = None, unsub_board_in_progress = None, unsub_board_closed = None,
      unsub_board_blocked = None, unsub_detail = None, last_issues_spec_key = None,
      pending_subscriptions = {}, in_flight = [], expanded = {}, loading = {},
      epic_unsubs = Map.empty\<rparr>"

text \<open>Two pieces of code run one after the other.\<close>

definition then_do ::
  "(app \<Rightarrow> app \<times> effect list) \<Rightarrow> (app \<Rightarrow> app \<times> effect list) \<Rightarrow> app \<Rightarrow> app \<times> effect list"
  where
  "then_do f g a = (case f a of (a1, e1) \<Rightarrow> (case g a1 of (a2, e2) \<Rightarrow> (a2, e1 @ e2)))"

text \<open>The key and the spec of the detail subscription of an issue.\<close>

definition detail_key :: "string \<Rightarrow> string" where
  "detail_key i = ''detail:'' @ i"

definition detail_spec :: "string \<Rightarrow> spec" where
  "detail_spec i = \<lparr>sp_type = ''issue-detail'', sp_params = Some [(''id'', i)]\<rparr>"

subsection \<open>Routing of push envelopes (main.js, the three \<^verbatim>\<open>client.on\<close> handlers)\<close>

text \<open>
  The handler of the event \<open>kind\<close>: the id is the payload's \<^verbatim>\<open>id\<close> when that is a
  string and the empty string otherwise; the store is looked up for a non-empty id; the
  store's \<^verbatim>\<open>applyPush\<close> runs when there is a store and the payload's \<^verbatim>\<open>type\<close> is the
  event's kind. The payload is \<open>None\<close> when it is \<^verbatim>\<open>null\<close> or \<^verbatim>\<open>undefined\<close>.
  The change notification that the specification has the registry broadcast once per
  \<^verbatim>\<open>applyPush\<close> is the effect \<open>Notify\<close>. The handlers write no log line.
\<close>

definition route_push :: "string \<Rightarrow> envelope option \<Rightarrow> app \<Rightarrow> app \<times> effect list" where
  "route_push kind payload a =
     (let id = (case payload of
                  Some p \<Rightarrow> (case env_id p of JStr s \<Rightarrow> s | _ \<Rightarrow> [])
                | None \<Rightarrow> []);
          store = (if id \<noteq> [] then getStore (stores a) id else None)
      in case store of
           None \<Rightarrow> (a, [])
         | Some m \<Rightarrow>
            (case payload of
               None \<Rightarrow> (a, [])
             | Some p \<Rightarrow>
                if env_type p = JStr kind
                then (a\<lparr>stores := (stores a)(id \<mapsto> applyPush m p)\<rparr>, [Notify id])
                else (a, [])))"

definition on_snapshot :: "envelope option \<Rightarrow> app \<Rightarrow> app \<times> effect list" where
  "on_snapshot = route_push ''snapshot''"

definition on_upsert :: "envelope option \<Rightarrow> app \<Rightarrow> app \<times> effect list" where
  "on_upsert = route_push ''upsert''"

definition on_delete :: "envelope option \<Rightarrow> app \<Rightarrow> app \<times> effect list" where
  "on_delete = route_push ''delete''"

subsection \<open>Tab subscriptions (main.js, \<^verbatim>\<open>ensureTabSubscriptions\<close>)\<close>

text \<open>
  The Issues block. The store is registered first; the subscribe is issued when there is
  no handle yet or the spec fingerprint changed, and no subscribe with this fingerprint is
  in flight. Leaving the tab releases the handle and unregisters the store.
\<close>

definition issues_tab :: "AppState \<Rightarrow> app \<Rightarrow> app \<times> effect list" where
  "issues_tab s a =
     (if view s = ''issues'' then
        (let spec = computeIssuesSpec (filters s);
             key = json_stringify_spec spec;
             a1 = a\<lparr>stores := register (stores a) ''tab:issues'' spec\<rparr>;
             issues_sub_key = ''tab:issues:'' @ key
         in if (unsub_issues_tab a1 = None \<or> Some key \<noteq> last_issues_spec_key a1)
               \<and> issues_sub_key \<notin> pending_subscriptions a1
            then (a1\<lparr>pending_subscriptions := insert issues_sub_key (pending_subscriptions a1),
                     in_flight := in_flight a1
                       @ [\<lparr>call_site = IssuesTab key, call_id = ''tab:issues'', call_spec = spec\<rparr>]\<rparr>,
                  [Register ''tab:issues'' spec, SubscribeList ''tab:issues'' spec])
            else (a1, [Register ''tab:issues'' spec]))
      else (case unsub_issues_tab a of
              Some u \<Rightarrow>
                (a\<lparr>unsub_issues_tab := None, last_issues_spec_key := None,
                   stores := unregister (stores a) ''tab:issues''\<rparr>,
                 [Unsubscribe u, Unregister ''tab:issues''])
            | None \<Rightarrow> (a, [])))"

text \<open>The Epics block.\<close>

definition epics_tab :: "AppState \<Rightarrow> app \<Rightarrow> app \<times> effect list" where
  "epics_tab s a =
     (if view s = ''epics'' then
        (let spec = \<lparr>sp_type = ''epics'', sp_params = None\<rparr>;
             a1 = a\<lparr>stores := register (stores a) ''tab:epics'' spec\<rparr>
         in if unsub_epics_tab a1 = None \<and> ''tab:epics'' \<notin> pending_subscriptions a1
            then (a1\<lparr>pending_subscriptions := insert ''tab:epics'' (pending_subscriptions a1),
                     in_flight := in_flight a1
                       @ [\<lparr>call_site = EpicsTab, call_id = ''tab:epics'', call_spec = spec\<rparr>]\<rparr>,
                  [Register ''tab:epics'' spec, SubscribeList ''tab:epics'' spec])
            else (a1, [Register ''tab:epics'' spec]))
      else (case unsub_epics_tab a of
              Some u \<Rightarrow>
                (a\<lparr>unsub_epics_tab := None, stores := unregister (stores a) ''tab:epics''\<rparr>,
                 [Unsubscribe u, Unregister ''tab:epics''])
            | None \<Rightarrow> (a, [])))"

text \<open>
  One column of the Board block; the four columns differ in the handle variable
  (\<open>unsub\<close> is its value), the key, the spec and the callbacks. Here the store is
  registered inside the guard, right before the subscribe.
\<close>

definition subscribe_column ::
  "release option \<Rightarrow> string \<Rightarrow> spec \<Rightarrow> site \<Rightarrow> app \<Rightarrow> app \<times> effect list" where
  "subscribe_column unsub key spec st a =
     (if unsub = None \<and> key \<notin> pending_subscriptions a
      then (a\<lparr>stores := register (stores a) key spec,
               pending_subscriptions := insert key (pending_subscriptions a),
               in_flight := in_flight a @ [\<lparr>call_site = st, call_id = key, call_spec = spec\<rparr>]\<rparr>,
            [Register key spec, SubscribeList key spec])
      else (a, []))"

text \<open>
  One column on leaving the board: the handle is released, the variable cleared
  (\<open>clear\<close>) and the store unregistered.
\<close>

definition leave_column ::
  "release option \<Rightarrow> (app \<Rightarrow> app) \<Rightarrow> string \<Rightarrow> app \<Rightarrow> app \<times> effect list" where
  "leave_column unsub clear key a =
     (case unsub of
        Some u \<Rightarrow> ((clear a)\<lparr>stores := unregister (stores a) key\<rparr>, [Unsubscribe u, Unregister key])
      | None \<Rightarrow> (a, []))"

definition board_tab :: "AppState \<Rightarrow> app \<Rightarrow> app \<times> effect list" where
  "board_tab s =
     (if view s = ''board'' then
        then_do
          (\<lambda>a. subscribe_column (unsub_board_ready a) ''tab:board:ready''
                  \<lparr>sp_type = ''ready-issues'', sp_params = None\<rparr> BoardReady a)
       (then_do
          (\<lambda>a. subscribe_column (unsub_board_in_progress a) ''tab:board:in-progress''
                  \<lparr>sp_type = ''in-progress-issues'', sp_params = None\<rparr> BoardInProgress a)
       (then_do
          (\<lambda>a. subscribe_column (unsub_board_closed a) ''tab:board:closed''
                  \<lparr>sp_type = ''closed-issues'', sp_params = None\<rparr> BoardClosed a)
          (\<lambda>a. subscribe_column (unsub_board_blocked a) ''tab:board:blocked''
                  \<lparr>sp_type = ''blocked-issues'', sp_params = None\<rparr> BoardBlocked a)))
      else
        then_do
          (\<lambda>a. leave_column (unsub_board_ready a) (\<lambda>a. a\<lparr>unsub_board_ready := None\<rparr>)
                  ''tab:board:ready'' a)
       (then_do
          (\<lambda>a. leave_column (unsub_board_in_progress a) (\<lambda>a. a\<lparr>unsub_board_in_progress := None\<rparr>)
                  ''tab:board:in-progress'' a)
       (then_do
          (\<lambda>a. leave_column (unsub_board_closed a) (\<lambda>a. a\<lparr>unsub_board_closed := None\<rparr>)
                  ''tab:board:closed'' a)
          (\<lambda>a. leave_column (unsub_board_blocked a) (\<lambda>a. a\<lparr>unsub_board_blocked := None\<rparr>)
                  ''tab:board:blocked'' a))))"

definition ensureTabSubscriptions :: "AppState \<Rightarrow> app \<Rightarrow> app \<times> effect list" where
  "ensureTabSubscriptions s = then_do (issues_tab s) (then_do (epics_tab s) (board_tab s))"

subsection \<open>Settling of a \<^verbatim>\<open>subscribeList\<close> promise\<close>

text \<open>
  The \<^verbatim>\<open>then\<close>, \<^verbatim>\<open>catch\<close> and \<^verbatim>\<open>finally\<close> callbacks of a tab subscription: on
  success \<open>store_handle\<close> keeps the handle, on failure the error is logged and the fatal
  dialog shown, and in both cases the key leaves the in-flight set.
\<close>

definition tab_settled ::
  "bool \<Rightarrow> (app \<Rightarrow> app) \<Rightarrow> string \<Rightarrow> string \<Rightarrow> string \<Rightarrow> app \<Rightarrow> app \<times> effect list" where
  "tab_settled ok store_handle pending_key log_line context a =
     (case (if ok then (store_handle a, []) else (a, [Log log_line, ShowFatal context])) of
        (a1, e1) \<Rightarrow>
          (a1\<lparr>pending_subscriptions := pending_subscriptions a1 - {pending_key}\<rparr>, e1))"

text \<open>
  The callbacks of the promise \<open>c\<close>, run when it resolves (\<open>ok\<close>, with the release
  handle of its id and spec) or rejects. The deep-link subscribe of a detail has a
  \<^verbatim>\<open>catch\<close> only; the selection subscribe releases the previous detail handle and keeps the
  new one; the epics view's \<^verbatim>\<open>toggle\<close> continues after its \<^verbatim>\<open>await\<close>: after the
  subscribe it keeps the handle (on success) and clears the loading mark, after the
  release (whether it resolved or rejected) it forgets the handle and unregisters the
  store.
\<close>

definition settle_call :: "call \<Rightarrow> bool \<Rightarrow> app \<Rightarrow> app \<times> effect list" where
  "settle_call c ok a =
     (let u = Release (call_id c) (call_spec c)
      in case call_site c of
           IssuesTab key \<Rightarrow>
             tab_settled ok (\<lambda>a. a\<lparr>unsub_issues_tab := Some u, last_issues_spec_key := Some key\<rparr>)
               (''tab:issues:'' @ key) ''subscribe issues failed'' ''issues list'' a
         | EpicsTab \<Rightarrow>
             tab_settled ok (\<lambda>a. a\<lparr>unsub_epics_tab := Some u\<rparr>)
               ''tab:epics'' ''subscribe epics failed'' ''epics'' a
         | BoardReady \<Rightarrow>
             tab_settled ok (\<lambda>a. a\<lparr>unsub_board_ready := Some u\<rparr>)
               ''tab:board:ready'' ''subscribe board ready failed'' ''board (Ready)'' a
         | BoardInProgress \<Rightarrow>
             tab_settled ok (\<lambda>a. a\<lparr>unsub_board_in_progress := Some u\<rparr>)
               ''tab:board:in-progress'' ''subscribe board in-progress failed''
               ''board (In Progress)'' a
         | BoardClosed \<Rightarrow>
             tab_settled ok (\<lambda>a. a\<lparr>unsub_board_closed := Some u\<rparr>)
               ''tab:board:closed'' ''subscribe board closed failed'' ''board (Closed)'' a
         | BoardBlocked \<Rightarrow>
             tab_settled ok (\<lambda>a. a\<lparr>unsub_board_blocked := Some u\<rparr>)
               ''tab:board:blocked'' ''subscribe board blocked failed'' ''board (Blocked)'' a
         | DetailDeepLink \<Rightarrow>
             (if ok then (a, [])
              else (a, [Log ''detail subscribe failed'', ShowFatal ''issue details'']))
         | DetailSelected \<Rightarrow>
             (if ok
              then (a\<lparr>unsub_detail := Some u\<rparr>,
                    (case unsub_detail a of Some old \<Rightarrow> [Unsubscribe old] | None \<Rightarrow> []))
              else (a, [Log ''detail subscribe failed'', ShowFatal ''issue details'']))
         | EpicExpand epic_id \<Rightarrow>
             ((if ok then a\<lparr>epic_unsubs := (epic_unsubs a)(epic_id \<mapsto> u)\<rparr> else a)
                \<lparr>loading := loading a - {epic_id}\<rparr>, [])
         | EpicCollapse epic_id issue_stores_given \<Rightarrow>
             (let a1 = a\<lparr>epic_unsubs := (epic_unsubs a)(epic_id := None)\<rparr>
              in if issue_stores_given
                 then (a1\<lparr>stores := unregister (stores a1) (detail_key epic_id)\<rparr>,
                       [Unregister (detail_key epic_id)])
                 else (a1, [])))"

text \<open>The \<open>i\<close>-th pending promise settles; there is nothing to do for an index out of range.\<close>

definition settle :: "nat \<Rightarrow> bool \<Rightarrow> app \<Rightarrow> app \<times> effect list" where
  "settle i ok a =
     (if i < length (in_flight a)
      then settle_call (in_flight a ! i) ok
             (a\<lparr>in_flight := take i (in_flight a) @ drop (Suc i) (in_flight a)\<rparr>)
      else (a, []))"

subsection \<open>Detail subscriptions (main.js)\<close>

text \<open>
  The deep-link block of \<^verbatim>\<open>bootstrap\<close>: with an initial selected id (a non-empty string)
  the detail store is registered and the detail subscribed.
\<close>

definition detail_deep_link :: "string option \<Rightarrow> app \<Rightarrow> app \<times> effect list" where
  "detail_deep_link initial_id a =
     (case initial_id of
        None \<Rightarrow> (a, [])
      | Some i \<Rightarrow>
          if i = [] then (a, [])
          else (a\<lparr>stores := register (stores a) (detail_key i) (detail_spec i),
                  in_flight := in_flight a
                    @ [\<lparr>call_site = DetailDeepLink, call_id = detail_key i, call_spec = detail_spec i\<rparr>]\<rparr>,
                [Register (detail_key i) (detail_spec i),
                 SubscribeList (detail_key i) (detail_spec i)]))"

text \<open>
  The store subscriber that follows \<^verbatim>\<open>selected_id\<close>: with a selected id it registers
  the detail store and subscribes, on every state change; without one it releases the
  detail handle.
\<close>

definition detail_selected :: "AppState \<Rightarrow> app \<Rightarrow> app \<times> effect list" where
  "detail_selected s a =
     (case (case selected_id s of Some i \<Rightarrow> (if i = [] then None else Some i) | None \<Rightarrow> None) of
        Some i \<Rightarrow>
          (a\<lparr>stores := register (stores a) (detail_key i) (detail_spec i),
             in_flight := in_flight a
               @ [\<lparr>call_site = DetailSelected, call_id = detail_key i, call_spec = detail_spec i\<rparr>]\<rparr>,
           [Register (detail_key i) (detail_spec i), SubscribeList (detail_key i) (detail_spec i)])
      | None \<Rightarrow>
          (case unsub_detail a of
             Some u \<Rightarrow> (a\<lparr>unsub_detail := None\<rparr>, [Unsubscribe u])
           | None \<Rightarrow> (a, [])))"

subsection \<open>Workspace switch (main.js, \<^verbatim>\<open>clearAndResubscribe\<close>)\<close>

definition release_all_tabs :: "app \<Rightarrow> app \<times> effect list" where
  "release_all_tabs a =
     (a\<lparr>unsub_issues_tab := None, unsub_epics_tab := None, unsub_board_ready := None,
        unsub_board_in_progress := None, unsub_board_closed := None,
        unsub_board_blocked := None\<rparr>,
      map Unsubscribe
        (List.map_filter (\<lambda>h. h)
           [unsub_issues_tab a, unsub_epics_tab a, unsub_board_ready a,
            unsub_board_in_progress a, unsub_board_closed a, unsub_board_blocked a]))"

definition unregister_all :: "string list \<Rightarrow> app \<Rightarrow> app \<times> effect list" where
  "unregister_all ids a = (a\<lparr>stores := fold (\<lambda>i reg. unregister reg i) ids (stores a)\<rparr>, map Unregister ids)"

definition clearAndResubscribe :: "AppState \<Rightarrow> app \<Rightarrow> app \<times> effect list" where
  "clearAndResubscribe s =
     then_do release_all_tabs
    (then_do
       (unregister_all
          ([''tab:issues'', ''tab:epics'', ''tab:board:ready'', ''tab:board:in-progress'',
            ''tab:board:closed'', ''tab:board:blocked'']
           @ (case selected_id s of
                Some i \<Rightarrow> (if i = [] then [] else [detail_key i])
              | None \<Rightarrow> [])))
    (then_do
       (\<lambda>a. (a\<lparr>last_issues_spec_key := None\<rparr>, []))
       (ensureTabSubscriptions s)))"

subsection \<open>Epic expansion (epics view, \<^verbatim>\<open>toggle\<close>)\<close>

text \<open>
  \<^verbatim>\<open>toggle(epic_id)\<close>. \<open>subscriptions_given\<close> and \<open>issue_stores_given\<close> say
  whether the view was created with a subscription manager and with issue stores. On
  expanding, the detail store of the epic is registered and the detail subscribed; the
  function then waits for the promise (see \<open>settle_call\<close>). On collapsing a subscribed
  epic, its handle is called and the function waits for that promise; the handle is
  forgotten and the store unregistered only when it has settled.
\<close>

definition toggle :: "bool \<Rightarrow> bool \<Rightarrow> string \<Rightarrow> app \<Rightarrow> app \<times> effect list" where
  "toggle subscriptions_given issue_stores_given epic_id a =
     (if epic_id \<notin> expanded a then
        (let a1 = a\<lparr>expanded := insert epic_id (expanded a), loading := insert epic_id (loading a)\<rparr>
         in if subscriptions_given then
              (let a2 = (if issue_stores_given
                         then a1\<lparr>stores := register (stores a1) (detail_key epic_id) (detail_spec epic_id)\<rparr>
                         else a1)
               in (a2\<lparr>in_flight := in_flight a2
                        @ [\<lparr>call_site = EpicExpand epic_id, call_id = detail_key epic_id,
                            call_spec = detail_spec epic_id\<rparr>]\<rparr>,
                   (if issue_stores_given then [Register (detail_key epic_id) (detail_spec epic_id)]
                    else [])
                   @ [SubscribeList (detail_key epic_id) (detail_spec epic_id)]))
            else (a1\<lparr>loading := loading a1 - {epic_id}\<rparr>, []))
      else
        (let a1 = a\<lparr>expanded := expanded a - {epic_id}\<rparr>
         in case epic_unsubs a1 epic_id of
              None \<Rightarrow> (a1, [])
            | Some u \<Rightarrow>
                (a1\<lparr>in_flight := in_flight a1
                      @ [\<lparr>call_site = EpicCollapse epic_id issue_stores_given,
                          call_id = (case u of Release k sp \<Rightarrow> k),
                          call_spec = (case u of Release k sp \<Rightarrow> sp)\<rparr>]\<rparr>,
                 [Unsubscribe u])))"

subsection \<open>Events of the wiring\<close>

text \<open>
  What can happen to the wiring: the route subscriber runs (\<^verbatim>\<open>onRouteChange\<close>, which
  calls \<^verbatim>\<open>ensureTabSubscriptions\<close>), the deep-link block runs, the selection subscriber
  runs, the workspace is switched, an epic is toggled in the epics view (which main.js
  creates with the subscription manager and the issue stores), a pending promise
  settles (resolves or rejects), or the connection delivers a push event.
\<close>

datatype event =
    RouteChange AppState
  | DeepLink "string option"
  | SelectionChange AppState
  | WorkspaceSwitch AppState
  | Toggle string
  | Settle nat bool
  | Push string "envelope option"

definition step :: "event \<Rightarrow> app \<Rightarrow> app \<times> effect list" where
  "step ev a =
     (case ev of
        RouteChange s \<Rightarrow> ensureTabSubscriptions s a
      | DeepLink i \<Rightarrow> detail_deep_link i a
      | SelectionChange s \<Rightarrow> detail_selected s a
      | WorkspaceSwitch s \<Rightarrow> clearAndResubscribe s a
      | Toggle epic_id \<Rightarrow> toggle True True epic_id a
      | Settle i ok \<Rightarrow> settle i ok a
      | Push kind payload \<Rightarrow>
          (if kind = ''snapshot'' then on_snapshot payload a
           else if kind = ''upsert'' then on_upsert payload a
           else if kind = ''delete'' then on_delete payload a
           else (a, [])))"

fun run :: "event list \<Rightarrow> app \<Rightarrow> app" where
  "run [] a = a"
| "run (ev # evs) a = run evs (fst (step ev a))"

subsection \<open>Order of registration and subscription\<close>

text \<open>
  A sequence of effects subscribes only keys registered before, in the sequence itself:
  every \<open>SubscribeList key spec\<close> comes after a \<open>Register key spec\<close> that no
  \<open>Unregister key\<close> has undone in between. \<open>seen\<close> holds the registrations so far.
\<close>

fun registered_before_subscribe :: "(string \<times> spec) list \<Rightarrow> effect list \<Rightarrow> bool" where
  "registered_before_subscribe seen [] = True"
| "registered_before_subscribe seen (Register k sp # es) =
     registered_before_subscribe ((k, sp) # seen) es"
| "registered_before_subscribe seen (Unregister k # es) =
     registered_before_subscribe (filter (\<lambda>r. fst r \<noteq> k) seen) es"
| "registered_before_subscribe seen (SubscribeList k sp # es) =
     ((k, sp) \<in> set seen \<and> registered_before_subscribe seen es)"
| "registered_before_subscribe seen (e # es) = registered_before_subscribe seen es"


text \<open>The keys of the four board columns.\<close>

definition board_keys :: "string set" where
  "board_keys = {''tab:board:ready'', ''tab:board:in-progress'', ''tab:board:closed'',
                 ''tab:board:blocked''}"

subsection \<open>Malformed push payloads\<close>

text \<open>
  A payload is malformed for the event \<open>kind\<close> when it is missing, when its \<^verbatim>\<open>id\<close> is
  not a non-empty string, or when its \<^verbatim>\<open>type\<close> is not the event's kind.
\<close>

definition malformed :: "string \<Rightarrow> envelope option \<Rightarrow> bool" where
  "malformed kind payload =
     (case payload of
        None \<Rightarrow> True
      | Some p \<Rightarrow>
          (case env_id p of JStr i \<Rightarrow> i = [] | _ \<Rightarrow> True) \<or> env_type p \<noteq> JStr kind)"

subsection \<open>The in-flight set and the pending promises\<close>

text \<open>
  The key under which the creator of a pending promise entered it into
  \<^verbatim>\<open>pending_subscriptions\<close>; the detail and epic subscriptions and the awaited
  release enter none.
\<close>

definition pending_key_of :: "call \<Rightarrow> string option" where
  "pending_key_of c =
     (case call_site c of
        IssuesTab key \<Rightarrow> Some (''tab:issues:'' @ key)
      | EpicsTab \<Rightarrow> Some ''tab:epics''
      | BoardReady \<Rightarrow> Some ''tab:board:ready''
      | BoardInProgress \<Rightarrow> Some ''tab:board:in-progress''
      | BoardClosed \<Rightarrow> Some ''tab:board:closed''
      | BoardBlocked \<Rightarrow> Some ''tab:board:blocked''
      | DetailDeepLink \<Rightarrow> None
      | DetailSelected \<Rightarrow> None
      | EpicExpand e \<Rightarrow> None
      | EpicCollapse e g \<Rightarrow> None)"

definition tracked :: "app \<Rightarrow> string list" where
  "tracked a = List.map_filter pending_key_of (in_flight a)"

text \<open>
  The in-flight key of a tab subscription: the Issues tab adds the spec fingerprint to
  the key, the other tabs use the key itself.
\<close>

definition pending_key :: "string \<Rightarrow> spec \<Rightarrow> string" where
  "pending_key k sp = (if k = ''tab:issues'' then ''tab:issues:'' @ json_stringify_spec sp else k)"

text \<open>
  The in-flight set holds exactly the keys of the pending tab subscriptions, and no two
  pending tab subscriptions have the same key.
\<close>

definition pending_inv :: "app \<Rightarrow> bool" where
  "pending_inv a = (pending_subscriptions a = set (tracked a) \<and> distinct (tracked a))"


section \<open>Subscription manager (app/data/subscriptions-store.js)\<close>













subsection \<open>The keys of the handles of the other tabs\<close>






section \<open>Example data\<close>

definition example_issue :: "string \<Rightarrow> string list \<Rightarrow> jsnum \<Rightarrow> issue" where
  "example_issue i ls c =
     \<lparr>issue_id = i, title = None, status = None, priority = None, issue_type = None,
      labels = Some ls, closed_at = c\<rparr>"

definition example_board :: board_view where
  "example_board =
     \<lparr>list_ready = [], list_blocked = [], list_in_progress = [], list_closed = [],
      list_closed_raw =
        [example_issue ''UI-7'' [] (Finite 940000000), example_issue ''UI-8'' [] Missing,
         example_issue ''UI-9'' [] (Finite 960000000), example_issue ''UI-10'' [] (Finite 990000000)],
      all_issues_cache = [], bv_client_filters = [''acme''],
      bv_work_filters = [], closed_filter_mode = ''today''\<rparr>"


definition example_clock :: clock where
  "example_clock = \<lparr>now_ms = 1000000000, local_day_start_ms = 950000000\<rparr>"

definition example_filters :: Filters where
  "example_filters =
     \<lparr>f_status = FStr ''all'', f_search = [], f_type = FStr [], f_client = [], f_work = []\<rparr>"

definition example_state :: AppState where
  "example_state =
     \<lparr>selected_id = None, view = ''issues'', filters = example_filters,
      board = \<lparr>closed_filter = ''today''\<rparr>,
      workspace = \<lparr>current = None, available = []\<rparr>\<rparr>"

definition example_store :: store where
  "example_store =
     \<lparr>state = example_state,
      subs = [\<lparr>sub_id = 0, run_sub = (\<lambda>s. Thrown)\<rparr>, \<lparr>sub_id = 1, run_sub = (\<lambda>s. Returned)\<rparr>]\<rparr>"

definition empty_patch :: Patch where
  "empty_patch =
     \<lparr>p_selected_id = None, p_view = None, p_filters = None, p_board = None, p_workspace = None\<rparr>"

definition empty_filters_patch :: FiltersPatch where
  "empty_filters_patch =
     \<lparr>pf_status = None, pf_search = None, pf_type = None, pf_client = None, pf_work = None\<rparr>"

definition example_workspace :: WorkspaceInfo where
  "example_workspace =
     \<lparr>wi_path = ''/w/a'', wi_database = ''/w/a/.beads/beads.db'', wi_pid = None,
      wi_version = None\<rparr>"



definition example_snapshot :: "string \<Rightarrow> string \<Rightarrow> envelope" where
  "example_snapshot k t =
     \<lparr>env_id = JStr k, env_type = JStr t,
      env_items = [example_issue ''UI-1'' [] Missing, example_issue ''UI-2'' [] Missing],
      env_ids = []\<rparr>"

definition example_wired :: app where
  "example_wired = fst (step (RouteChange example_state) initial_app)"

definition example_on_board :: AppState where
  "example_on_board = example_state\<lparr>view := ''board''\<rparr>"

text \<open>
  The tab of \<open>s\<close> is opened, the workspace is switched while the subscribes of the
  tab are pending, and then the first of them resolves.
\<close>

definition example_switched :: "AppState \<Rightarrow> app" where
  "example_switched s = run [RouteChange s, WorkspaceSwitch s, Settle 0 True] initial_app"

definition example_selected :: AppState where
  "example_selected = example_state\<lparr>selected_id := Some ''UI-1''\<rparr>"







definition example_entry :: "string \<Rightarrow> RegistryEntry" where
  "example_entry p =
     \<lparr>workspace_path = p, socket_path = [], database_path = p @ ''/.beads/beads.db'',
      re_pid = 7, re_version = ''0.1'', started_at = []\<rparr>"

definition example_descriptor :: "string \<Rightarrow> string \<Rightarrow> ws_descriptor" where
  "example_descriptor p v =
     \<lparr>ws_path = p, ws_database = p @ ''/.beads/beads.db'', ws_pid = None, ws_version = v\<rparr>"

section \<open>Properties of the state store\<close>

lemma emit_calls: "emit fns s = map (\<lambda>fn. (sub_id fn, s, run_sub fn s)) fns"
  by (induction fns) (auto split: outcome.splits)

lemma merge_filters_fields:
  "merge_filters f p =
     \<lparr>f_status = (case p of
                    Some q \<Rightarrow> (case pf_status q of Some v \<Rightarrow> v | None \<Rightarrow> f_status f)
                  | None \<Rightarrow> f_status f),
      f_search = (case p of
                    Some q \<Rightarrow> (case pf_search q of Some v \<Rightarrow> v | None \<Rightarrow> f_search f)
                  | None \<Rightarrow> f_search f),
      f_type = (case p of
                  Some q \<Rightarrow> (case pf_type q of Some v \<Rightarrow> v | None \<Rightarrow> f_type f)
                | None \<Rightarrow> f_type f),
      f_client = (case p of
                    Some q \<Rightarrow> (case pf_client q of Some v \<Rightarrow> v | None \<Rightarrow> f_client f)
                  | None \<Rightarrow> f_client f),
      f_work = (case p of
                  Some q \<Rightarrow> (case pf_work q of Some v \<Rightarrow> v | None \<Rightarrow> f_work f)
                | None \<Rightarrow> f_work f)\<rparr>"
  by (cases p) (simp_all add: merge_filters_def or_else_def)

lemma merge_board_fields:
  "merge_board b p =
     \<lparr>closed_filter = (case p of
                         Some q \<Rightarrow> (case pb_closed_filter q of Some v \<Rightarrow> v | None \<Rightarrow> closed_filter b)
                       | None \<Rightarrow> closed_filter b)\<rparr>"
  by (cases p) (simp_all add: merge_board_def or_else_def)

lemma merge_workspace_fields:
  "merge_workspace w p =
     \<lparr>current = (case p of
                   Some q \<Rightarrow> (case pw_current q of Some v \<Rightarrow> v | None \<Rightarrow> current w)
                 | None \<Rightarrow> current w),
      available = (case p of
                     Some q \<Rightarrow> (case pw_available q of Some v \<Rightarrow> v | None \<Rightarrow> available w)
                   | None \<Rightarrow> available w)\<rparr>"
  by (cases p) (simp_all add: merge_workspace_def or_else_def)

text \<open>
  Claim C9. Let every compared item of the next state be the patch's value where the
  patch (or its \<^verbatim>\<open>filters\<close>, \<^verbatim>\<open>board\<close>, \<^verbatim>\<open>workspace\<close> part) has the key, and the
  state's value otherwise. When \<^verbatim>\<open>selected_id\<close>, \<^verbatim>\<open>view\<close>, the status, search and type
  filters (compared with \<^verbatim>\<open>===\<close>), the JSON serialisations of the client and work
  filters, the board's closed filter, the path of the current workspace and the number of
  available workspaces are all as before, \<^verbatim>\<open>setState\<close> returns the store as it was and
  calls no subscriber. Otherwise the state made of exactly these next values is
  installed, and the calls made are one per subscriber, in order, each with that state,
  whatever each call's outcome (returned or thrown) was.
\<close>

theorem setState_silent_or_emits:
  "(let s = state st;
        sel = (case p_selected_id patch of Some v \<Rightarrow> v | None \<Rightarrow> selected_id s);
        vw = (case p_view patch of Some v \<Rightarrow> v | None \<Rightarrow> view s);
        sta = (case p_filters patch of
                 Some q \<Rightarrow> (case pf_status q of Some v \<Rightarrow> v | None \<Rightarrow> f_status (filters s))
               | None \<Rightarrow> f_status (filters s));
        sea = (case p_filters patch of
                 Some q \<Rightarrow> (case pf_search q of Some v \<Rightarrow> v | None \<Rightarrow> f_search (filters s))
               | None \<Rightarrow> f_search (filters s));
        typ = (case p_filters patch of
                 Some q \<Rightarrow> (case pf_type q of Some v \<Rightarrow> v | None \<Rightarrow> f_type (filters s))
               | None \<Rightarrow> f_type (filters s));
        cli = (case p_filters patch of
                 Some q \<Rightarrow> (case pf_client q of Some v \<Rightarrow> v | None \<Rightarrow> f_client (filters s))
               | None \<Rightarrow> f_client (filters s));
        wrk = (case p_filters patch of
                 Some q \<Rightarrow> (case pf_work q of Some v \<Rightarrow> v | None \<Rightarrow> f_work (filters s))
               | None \<Rightarrow> f_work (filters s));
        cf = (case p_board patch of
                Some q \<Rightarrow> (case pb_closed_filter q of Some v \<Rightarrow> v | None \<Rightarrow> closed_filter (board s))
              | None \<Rightarrow> closed_filter (board s));
        cur = (case p_workspace patch of
                 Some q \<Rightarrow> (case pw_current q of Some v \<Rightarrow> v | None \<Rightarrow> current (workspace s))
               | None \<Rightarrow> current (workspace s));
        av = (case p_workspace patch of
                Some q \<Rightarrow> (case pw_available q of Some v \<Rightarrow> v | None \<Rightarrow> available (workspace s))
              | None \<Rightarrow> available (workspace s));
        next = \<lparr>selected_id = sel, view = vw,
                filters = \<lparr>f_status = sta, f_search = sea, f_type = typ, f_client = cli,
                           f_work = wrk\<rparr>,
                board = \<lparr>closed_filter = cf\<rparr>,
                workspace = \<lparr>current = cur, available = av\<rparr>\<rparr>
    in if sel = selected_id s
          \<and> vw = view s
          \<and> (case sta of
                FStr x \<Rightarrow> (case f_status (filters s) of FStr y \<Rightarrow> x = y | FArr r ys \<Rightarrow> False)
              | FArr r xs \<Rightarrow>
                  (case f_status (filters s) of FStr y \<Rightarrow> False | FArr r' ys \<Rightarrow> r = r'))
          \<and> sea = f_search (filters s)
          \<and> (case typ of
                FStr x \<Rightarrow> (case f_type (filters s) of FStr y \<Rightarrow> x = y | FArr r ys \<Rightarrow> False)
              | FArr r xs \<Rightarrow>
                  (case f_type (filters s) of FStr y \<Rightarrow> False | FArr r' ys \<Rightarrow> r = r'))
          \<and> json_stringify_strings cli = json_stringify_strings (f_client (filters s))
          \<and> json_stringify_strings wrk = json_stringify_strings (f_work (filters s))
          \<and> cf = closed_filter (board s)
          \<and> map_option wi_path cur = map_option wi_path (current (workspace s))
          \<and> length av = length (available (workspace s))
       then setState st patch = (st, [])
       else setState st patch
              = (st\<lparr>state := next\<rparr>, map (\<lambda>fn. (sub_id fn, next, run_sub fn next)) (subs st)))"
  unfolding setState_def nothing_changed_def merge_state_def merge_filters_fields
    merge_board_fields merge_workspace_fields or_else_def strict_eq_def emit_calls Let_def
  by simp

theorem setState_silent_or_emits_witness:
  "setState example_store
     (empty_patch\<lparr>p_filters := Some (empty_filters_patch\<lparr>pf_search := Some []\<rparr>)\<rparr>)
     = (example_store, [])
   \<and> setState example_store (empty_patch\<lparr>p_board := Some \<lparr>pb_closed_filter = Some ''7''\<rparr>\<rparr>)
       = (example_store\<lparr>state := example_state\<lparr>board := \<lparr>closed_filter = ''7''\<rparr>\<rparr>\<rparr>,
          [(0, example_state\<lparr>board := \<lparr>closed_filter = ''7''\<rparr>\<rparr>, Thrown),
           (1, example_state\<lparr>board := \<lparr>closed_filter = ''7''\<rparr>\<rparr>, Returned)])
   \<and> fst (setState example_store
             (empty_patch\<lparr>p_workspace :=
                Some \<lparr>pw_current = Some (Some example_workspace),
                      pw_available = Some [example_workspace]\<rparr>\<rparr>))
       = example_store\<lparr>state := example_state\<lparr>workspace :=
           \<lparr>current = Some example_workspace, available = [example_workspace]\<rparr>\<rparr>\<rparr>
   \<and> fst (setState example_store
             (empty_patch\<lparr>p_filters :=
                Some (empty_filters_patch\<lparr>pf_status := Some (FArr 1 [''closed''])\<rparr>)\<rparr>))
       = example_store\<lparr>state := example_state\<lparr>filters :=
           example_filters\<lparr>f_status := FArr 1 [''closed'']\<rparr>\<rparr>\<rparr>
   \<and> map fst
        (snd (setState
                (example_store\<lparr>state := example_state\<lparr>filters :=
                   example_filters\<lparr>f_status := FArr 1 [''closed'']\<rparr>\<rparr>\<rparr>)
                (empty_patch\<lparr>p_filters :=
                   Some (empty_filters_patch\<lparr>pf_status := Some (FArr 2 [''closed''])\<rparr>)\<rparr>)))
       = [0, 1]
   \<and> snd (setState
             (example_store\<lparr>state := example_state\<lparr>filters :=
                example_filters\<lparr>f_status := FArr 1 [''closed'']\<rparr>\<rparr>\<rparr>)
             (empty_patch\<lparr>p_filters :=
                Some (empty_filters_patch\<lparr>pf_status := Some (FArr 1 [''closed''])\<rparr>)\<rparr>))
       = []"
  using
    setState_silent_or_emits [of example_store
      "empty_patch\<lparr>p_filters := Some (empty_filters_patch\<lparr>pf_search := Some []\<rparr>)\<rparr>"]
    setState_silent_or_emits [of example_store
      "empty_patch\<lparr>p_board := Some \<lparr>pb_closed_filter = Some ''7''\<rparr>\<rparr>"]
    setState_silent_or_emits [of example_store
      "empty_patch\<lparr>p_workspace :=
         Some \<lparr>pw_current = Some (Some example_workspace),
               pw_available = Some [example_workspace]\<rparr>\<rparr>"]
    setState_silent_or_emits [of example_store
      "empty_patch\<lparr>p_filters :=
         Some (empty_filters_patch\<lparr>pf_status := Some (FArr 1 [''closed''])\<rparr>)\<rparr>"]
    setState_silent_or_emits [of
      "example_store\<lparr>state := example_state\<lparr>filters :=
         example_filters\<lparr>f_status := FArr 1 [''closed'']\<rparr>\<rparr>\<rparr>"
      "empty_patch\<lparr>p_filters :=
         Some (empty_filters_patch\<lparr>pf_status := Some (FArr 2 [''closed''])\<rparr>)\<rparr>"]
    setState_silent_or_emits [of
      "example_store\<lparr>state := example_state\<lparr>filters :=
         example_filters\<lparr>f_status := FArr 1 [''closed'']\<rparr>\<rparr>\<rparr>"
      "empty_patch\<lparr>p_filters :=
         Some (empty_filters_patch\<lparr>pf_status := Some (FArr 1 [''closed''])\<rparr>)\<rparr>"]
  by (simp add: example_store_def empty_patch_def empty_filters_patch_def example_state_def
        example_filters_def example_workspace_def json_stringify_strings_def Let_def)

section \<open>Properties of the issues spec and the list filters\<close>








section \<open>Properties of the board view\<close>

lemma filter_closed_since:
  "filter (closed_since ts) xs = filter (\<lambda>it. \<exists>n. closed_at it = Finite n \<and> ts \<le> n) xs"
  by (rule filter_cong) (auto simp: closed_since_def isFinite_def split: jsnum.splits)

lemma sorted_cmpClosedDesc:
  "sorted_wrt (\<lambda>a b. closed_ms b \<le> closed_ms a) (sort_cmpClosedDesc xs)"
proof -
  have "sorted (map (\<lambda>it. - closed_ms it) (sort_key (\<lambda>it. - closed_ms it) xs))"
    by (rule sorted_sort_key)
  then show ?thesis
    unfolding sort_cmpClosedDesc_def by (simp add: sorted_map)
qed

text \<open>
  Claim C10. For the modes \<^verbatim>\<open>today\<close>, \<^verbatim>\<open>3\<close> and \<^verbatim>\<open>7\<close> the Closed column after
  \<^verbatim>\<open>applyClosedFilter\<close> holds exactly the raw closed items whose \<^verbatim>\<open>closed_at\<close> is a
  finite number not below the cutoff (the start of the local day, or now minus 3 or 7 days
  of 86400000 ms), it is sorted by \<^verbatim>\<open>closed_at\<close> descending, and no item without a finite
  \<^verbatim>\<open>closed_at\<close> is in it.
\<close>

theorem applyClosedFilter_closed_column:
  assumes "closed_filter_mode bv \<in> {''today'', ''3'', ''7''}"
  shows "(let cutoff = (if closed_filter_mode bv = ''today'' then local_day_start_ms clk
                        else if closed_filter_mode bv = ''3'' then now_ms clk - 259200000
                        else now_ms clk - 604800000);
              col = list_closed (applyClosedFilter clk bv)
          in mset col = filter_mset (\<lambda>it. \<exists>n. closed_at it = Finite n \<and> cutoff \<le> n)
                          (mset (list_closed_raw bv))
             \<and> sorted_wrt (\<lambda>a b. closed_ms b \<le> closed_ms a) col
             \<and> (\<forall>it \<in> set col. isFinite (closed_at it)))"
proof -
  let ?ts = "since_ts clk (closed_filter_mode bv)"
  have col: "list_closed (applyClosedFilter clk bv)
               = sort_cmpClosedDesc (filter (closed_since ?ts) (list_closed_raw bv))"
    by (simp add: applyClosedFilter_def)
  have m: "mset (sort_cmpClosedDesc (filter (closed_since ?ts) (list_closed_raw bv)))
             = filter_mset (\<lambda>it. \<exists>n. closed_at it = Finite n \<and> ?ts \<le> n)
                 (mset (list_closed_raw bv))"
    by (simp add: sort_cmpClosedDesc_def filter_closed_since)
  have f: "\<forall>it \<in> set (sort_cmpClosedDesc (filter (closed_since ?ts) (list_closed_raw bv))).
             isFinite (closed_at it)"
    by (auto simp: sort_cmpClosedDesc_def closed_since_def split: if_splits)
  have ts: "?ts = (if closed_filter_mode bv = ''today'' then local_day_start_ms clk
                   else if closed_filter_mode bv = ''3'' then now_ms clk - 259200000
                   else now_ms clk - 604800000)"
    using assms by (auto simp: since_ts_def)
  show ?thesis
    unfolding Let_def col using m f sorted_cmpClosedDesc ts by simp
qed

theorem applyClosedFilter_closed_column_witness:
  "closed_filter_mode example_board \<in> {''today'', ''3'', ''7''}
   \<and> list_closed (applyClosedFilter example_clock example_board)
       = [example_issue ''UI-10'' [] (Finite 990000000), example_issue ''UI-9'' [] (Finite 960000000)]
   \<and> sorted_wrt (\<lambda>a b. closed_ms b \<le> closed_ms a)
        (list_closed (applyClosedFilter example_clock example_board))"
proof -
  have h: "closed_filter_mode example_board \<in> {''today'', ''3'', ''7''}"
    by (simp add: example_board_def)
  have v: "list_closed (applyClosedFilter example_clock example_board)
             = [example_issue ''UI-10'' [] (Finite 990000000),
                example_issue ''UI-9'' [] (Finite 960000000)]"
    by (simp add: applyClosedFilter_def example_board_def example_clock_def since_ts_def
          closed_since_def isFinite_def example_issue_def sort_cmpClosedDesc_def closed_ms_def)
  from applyClosedFilter_closed_column [OF h, of example_clock]
  show ?thesis
    using h v by (simp add: Let_def)
qed






section \<open>Properties of the subscription wiring\<close>

lemma then_do_fst: "fst (then_do f g a) = fst (g (fst (f a)))"
  by (simp add: then_do_def split: prod.splits)

lemma then_do_snd: "snd (then_do f g a) = snd (f a) @ snd (g (fst (f a)))"
  by (simp add: then_do_def split: prod.splits)

lemma rbs_mono:
  "set seen \<subseteq> set seen' \<Longrightarrow> registered_before_subscribe seen es
     \<Longrightarrow> registered_before_subscribe seen' es"
proof (induction es arbitrary: seen seen')
  case Nil
  then show ?case by simp
next
  case (Cons e es)
  show ?case
  proof (cases e)
    case (Register k sp)
    with Cons.prems Cons.IH [of "(k, sp) # seen" "(k, sp) # seen'"] show ?thesis by auto
  next
    case (Unregister k)
    with Cons.prems Cons.IH [of "filter (\<lambda>r. fst r \<noteq> k) seen" "filter (\<lambda>r. fst r \<noteq> k) seen'"]
    show ?thesis by auto
  next
    case (SubscribeList k sp)
    with Cons.prems Cons.IH [of seen seen'] show ?thesis by auto
  qed (use Cons.prems Cons.IH [of seen seen'] in auto)
qed

lemma rbs_append:
  "registered_before_subscribe seen xs \<Longrightarrow> registered_before_subscribe [] ys
     \<Longrightarrow> registered_before_subscribe seen (xs @ ys)"
proof (induction xs arbitrary: seen)
  case Nil
  then show ?case using rbs_mono [of "[]" seen ys] by simp
next
  case (Cons e xs)
  then show ?case by (cases e) auto
qed

lemma rbs_then_do:
  "registered_before_subscribe [] (snd (f a))
     \<Longrightarrow> (\<And>b. registered_before_subscribe [] (snd (g b)))
     \<Longrightarrow> registered_before_subscribe [] (snd (then_do f g a))"
  by (simp add: then_do_snd rbs_append)

lemma rbs_issues_tab: "registered_before_subscribe [] (snd (issues_tab s a))"
  by (simp add: issues_tab_def Let_def split: option.splits)

lemma rbs_epics_tab: "registered_before_subscribe [] (snd (epics_tab s a))"
  by (simp add: epics_tab_def Let_def split: option.splits)

lemma rbs_subscribe_column: "registered_before_subscribe [] (snd (subscribe_column u k sp st a))"
  by (simp add: subscribe_column_def)

lemma rbs_leave_column: "registered_before_subscribe [] (snd (leave_column u c k a))"
  by (simp add: leave_column_def split: option.splits)

lemma rbs_board_tab: "registered_before_subscribe [] (snd (board_tab s a))"
  unfolding board_tab_def
  by (auto intro!: rbs_then_do rbs_subscribe_column rbs_leave_column)

lemma rbs_ensure: "registered_before_subscribe [] (snd (ensureTabSubscriptions s a))"
  unfolding ensureTabSubscriptions_def
  by (intro rbs_then_do rbs_issues_tab rbs_epics_tab rbs_board_tab)

lemma rbs_no_subscribe:
  "(\<forall>k sp. SubscribeList k sp \<notin> set es) \<Longrightarrow> registered_before_subscribe seen es"
proof (induction es arbitrary: seen)
  case Nil
  then show ?case by simp
next
  case (Cons e es)
  then show ?case by (cases e) auto
qed

lemma rbs_clear: "registered_before_subscribe [] (snd (clearAndResubscribe s a))"
  unfolding clearAndResubscribe_def
  by (intro rbs_then_do rbs_ensure rbs_no_subscribe)
     (auto simp: release_all_tabs_def unregister_all_def)

lemma settle_call_no_subscribe: "SubscribeList k sp \<notin> set (snd (settle_call c ok a))"
  by (auto simp: settle_call_def tab_settled_def Let_def split: site.splits option.splits)

lemma settle_no_subscribe: "SubscribeList k sp \<notin> set (snd (settle i ok a))"
  by (simp add: settle_def settle_call_no_subscribe)

lemma route_push_no_subscribe: "SubscribeList k sp \<notin> set (snd (route_push kind p a))"
  by (auto simp: route_push_def Let_def split: option.splits)

lemma rbs_step: "registered_before_subscribe [] (snd (step ev a))"
proof (cases ev)
  case (RouteChange s)
  then show ?thesis by (simp add: step_def rbs_ensure)
next
  case (DeepLink i)
  then show ?thesis by (simp add: step_def detail_deep_link_def split: option.splits)
next
  case (SelectionChange s)
  then show ?thesis by (simp add: step_def detail_selected_def split: option.splits)
next
  case (WorkspaceSwitch s)
  then show ?thesis by (simp add: step_def rbs_clear)
next
  case (Toggle e)
  then show ?thesis by (simp add: step_def toggle_def Let_def split: option.splits)
next
  case (Settle i ok)
  then show ?thesis by (simp add: step_def rbs_no_subscribe settle_no_subscribe)
next
  case (Push kind p)
  then show ?thesis
    by (simp add: step_def on_snapshot_def on_upsert_def on_delete_def rbs_no_subscribe
          route_push_no_subscribe)
qed

lemma register_keeps: "reg k = Some m \<Longrightarrow> register reg k' sp k = Some m"
  by (auto simp: register_def split: option.splits)

lemma register_registers: "\<exists>m. register reg k sp k = Some m"
  by (simp add: register_def split: option.splits)

lemma register_other: "k \<noteq> k' \<Longrightarrow> register reg k' sp k = reg k"
  by (simp add: register_def split: option.splits)

lemma then_do_subscribes:
  assumes f: "\<And>a k sp. SubscribeList k sp \<in> set (snd (f a))
                \<Longrightarrow> k \<in> K1 \<and> k \<noteq> [] \<and> stores (fst (f a)) k \<noteq> None"
    and g: "\<And>a k sp. SubscribeList k sp \<in> set (snd (g a))
                \<Longrightarrow> k \<in> K2 \<and> k \<noteq> [] \<and> stores (fst (g a)) k \<noteq> None"
    and other: "\<And>a k. k \<notin> K2 \<Longrightarrow> stores (fst (g a)) k = stores a k"
    and disj: "K1 \<inter> K2 = {}"
    and sub: "SubscribeList k sp \<in> set (snd (then_do f g a))"
  shows "k \<in> K1 \<union> K2 \<and> k \<noteq> [] \<and> stores (fst (then_do f g a)) k \<noteq> None"
proof -
  from sub have "SubscribeList k sp \<in> set (snd (f a))
                 \<or> SubscribeList k sp \<in> set (snd (g (fst (f a))))"
    by (simp add: then_do_snd)
  then show ?thesis
  proof
    assume h: "SubscribeList k sp \<in> set (snd (f a))"
    from f [OF h] disj have "k \<notin> K2" by auto
    with f [OF h] other [of k "fst (f a)"] show ?thesis by (simp add: then_do_fst)
  next
    assume h: "SubscribeList k sp \<in> set (snd (g (fst (f a))))"
    from g [OF h] show ?thesis by (simp add: then_do_fst)
  qed
qed

lemma then_do_other:
  assumes "\<And>a k. k \<notin> K1 \<Longrightarrow> stores (fst (f a)) k = stores a k"
    and "\<And>a k. k \<notin> K2 \<Longrightarrow> stores (fst (g a)) k = stores a k"
    and "k \<notin> K1 \<union> K2"
  shows "stores (fst (then_do f g a)) k = stores a k"
  using assms by (simp add: then_do_fst)

lemma issues_tab_subscribes:
  "SubscribeList k sp \<in> set (snd (issues_tab s a))
     \<Longrightarrow> k \<in> {''tab:issues''} \<and> k \<noteq> [] \<and> stores (fst (issues_tab s a)) k \<noteq> None"
  by (auto simp: issues_tab_def Let_def register_registers split: option.splits if_splits)

lemma issues_tab_other:
  "k \<notin> {''tab:issues''} \<Longrightarrow> stores (fst (issues_tab s a)) k = stores a k"
  by (auto simp: issues_tab_def Let_def register_other unregister_def split: option.splits)

lemma epics_tab_subscribes:
  "SubscribeList k sp \<in> set (snd (epics_tab s a))
     \<Longrightarrow> k \<in> {''tab:epics''} \<and> k \<noteq> [] \<and> stores (fst (epics_tab s a)) k \<noteq> None"
  by (auto simp: epics_tab_def Let_def register_registers split: option.splits if_splits)

lemma epics_tab_other:
  "k \<notin> {''tab:epics''} \<Longrightarrow> stores (fst (epics_tab s a)) k = stores a k"
  by (auto simp: epics_tab_def Let_def register_other unregister_def split: option.splits)

lemma subscribe_column_subscribes:
  "key \<noteq> [] \<Longrightarrow> SubscribeList k sp \<in> set (snd (subscribe_column u key spec st a))
     \<Longrightarrow> k \<in> {key} \<and> k \<noteq> [] \<and> stores (fst (subscribe_column u key spec st a)) k \<noteq> None"
  by (auto simp: subscribe_column_def register_registers split: if_splits)

lemma subscribe_column_other:
  "k \<notin> {key} \<Longrightarrow> stores (fst (subscribe_column u key spec st a)) k = stores a k"
  by (auto simp: subscribe_column_def register_other)

lemma leave_column_subscribes:
  "SubscribeList k sp \<in> set (snd (leave_column u c key a))
     \<Longrightarrow> k \<in> {key} \<and> k \<noteq> [] \<and> stores (fst (leave_column u c key a)) k \<noteq> None"
  by (auto simp: leave_column_def split: option.splits)

lemma leave_column_other:
  "(\<And>b. stores (clear b) = stores b) \<Longrightarrow> k \<notin> {key}
     \<Longrightarrow> stores (fst (leave_column u clear key a)) k = stores a k"
  by (auto simp: leave_column_def unregister_def split: option.splits)

lemma board_tab_other:
  assumes "k \<notin> board_keys"
  shows "stores (fst (board_tab s a)) k = stores a k"
proof -
  have k: "k \<notin> {''tab:board:ready''}" "k \<notin> {''tab:board:in-progress''}"
    "k \<notin> {''tab:board:closed''}" "k \<notin> {''tab:board:blocked''}"
    using assms by (auto simp: board_keys_def)
  show ?thesis
    unfolding board_tab_def
    by (simp add: then_do_fst subscribe_column_other [OF k(1)] subscribe_column_other [OF k(2)]
          subscribe_column_other [OF k(3)] subscribe_column_other [OF k(4)]
          leave_column_other [OF _ k(1)] leave_column_other [OF _ k(2)]
          leave_column_other [OF _ k(3)] leave_column_other [OF _ k(4)])
qed

lemma board_tab_subscribes:
  assumes "SubscribeList k sp \<in> set (snd (board_tab s a))"
  shows "k \<in> board_keys \<and> k \<noteq> [] \<and> stores (fst (board_tab s a)) k \<noteq> None"
proof (cases "view s = ''board''")
  case True
  let ?c1 = "\<lambda>a. subscribe_column (unsub_board_ready a) ''tab:board:ready''
                  \<lparr>sp_type = ''ready-issues'', sp_params = None\<rparr> BoardReady a"
  let ?c2 = "\<lambda>a. subscribe_column (unsub_board_in_progress a) ''tab:board:in-progress''
                  \<lparr>sp_type = ''in-progress-issues'', sp_params = None\<rparr> BoardInProgress a"
  let ?c3 = "\<lambda>a. subscribe_column (unsub_board_closed a) ''tab:board:closed''
                  \<lparr>sp_type = ''closed-issues'', sp_params = None\<rparr> BoardClosed a"
  let ?c4 = "\<lambda>a. subscribe_column (unsub_board_blocked a) ''tab:board:blocked''
                  \<lparr>sp_type = ''blocked-issues'', sp_params = None\<rparr> BoardBlocked a"
  have s1: "\<And>a k sp. SubscribeList k sp \<in> set (snd (?c1 a))
              \<Longrightarrow> k \<in> {''tab:board:ready''} \<and> k \<noteq> [] \<and> stores (fst (?c1 a)) k \<noteq> None"
    by (rule subscribe_column_subscribes) simp_all
  have s2: "\<And>a k sp. SubscribeList k sp \<in> set (snd (?c2 a))
              \<Longrightarrow> k \<in> {''tab:board:in-progress''} \<and> k \<noteq> [] \<and> stores (fst (?c2 a)) k \<noteq> None"
    by (rule subscribe_column_subscribes) simp_all
  have s3: "\<And>a k sp. SubscribeList k sp \<in> set (snd (?c3 a))
              \<Longrightarrow> k \<in> {''tab:board:closed''} \<and> k \<noteq> [] \<and> stores (fst (?c3 a)) k \<noteq> None"
    by (rule subscribe_column_subscribes) simp_all
  have s4: "\<And>a k sp. SubscribeList k sp \<in> set (snd (?c4 a))
              \<Longrightarrow> k \<in> {''tab:board:blocked''} \<and> k \<noteq> [] \<and> stores (fst (?c4 a)) k \<noteq> None"
    by (rule subscribe_column_subscribes) simp_all
  have o2: "\<And>a k. k \<notin> {''tab:board:in-progress''} \<Longrightarrow> stores (fst (?c2 a)) k = stores a k"
    by (rule subscribe_column_other)
  have o3: "\<And>a k. k \<notin> {''tab:board:closed''} \<Longrightarrow> stores (fst (?c3 a)) k = stores a k"
    by (rule subscribe_column_other)
  have o4: "\<And>a k. k \<notin> {''tab:board:blocked''} \<Longrightarrow> stores (fst (?c4 a)) k = stores a k"
    by (rule subscribe_column_other)
  have s34: "\<And>a k sp. SubscribeList k sp \<in> set (snd (then_do ?c3 ?c4 a))
              \<Longrightarrow> k \<in> {''tab:board:closed''} \<union> {''tab:board:blocked''} \<and> k \<noteq> []
                  \<and> stores (fst (then_do ?c3 ?c4 a)) k \<noteq> None"
    by (rule then_do_subscribes
          [where ?K1.0 = "{''tab:board:closed''}" and ?K2.0 = "{''tab:board:blocked''}",
           OF s3 s4 o4])
       auto
  have o34: "\<And>a k. k \<notin> {''tab:board:closed''} \<union> {''tab:board:blocked''}
              \<Longrightarrow> stores (fst (then_do ?c3 ?c4 a)) k = stores a k"
    by (rule then_do_other
          [where ?K1.0 = "{''tab:board:closed''}" and ?K2.0 = "{''tab:board:blocked''}",
           OF o3 o4])
       auto
  have s234: "\<And>a k sp. SubscribeList k sp \<in> set (snd (then_do ?c2 (then_do ?c3 ?c4) a))
              \<Longrightarrow> k \<in> {''tab:board:in-progress''} \<union> ({''tab:board:closed''} \<union> {''tab:board:blocked''})
                  \<and> k \<noteq> [] \<and> stores (fst (then_do ?c2 (then_do ?c3 ?c4) a)) k \<noteq> None"
    by (rule then_do_subscribes
          [where ?K1.0 = "{''tab:board:in-progress''}"
             and ?K2.0 = "{''tab:board:closed''} \<union> {''tab:board:blocked''}",
           OF s2 s34 o34])
       auto
  have o234: "\<And>a k. k \<notin> {''tab:board:in-progress''} \<union> ({''tab:board:closed''} \<union> {''tab:board:blocked''})
              \<Longrightarrow> stores (fst (then_do ?c2 (then_do ?c3 ?c4) a)) k = stores a k"
    by (rule then_do_other
          [where ?K1.0 = "{''tab:board:in-progress''}"
             and ?K2.0 = "{''tab:board:closed''} \<union> {''tab:board:blocked''}",
           OF o2 o34])
       auto
  have sub: "SubscribeList k sp \<in> set (snd (then_do ?c1 (then_do ?c2 (then_do ?c3 ?c4)) a))"
    using assms True by (simp add: board_tab_def)
  have "k \<in> {''tab:board:ready''} \<union> ({''tab:board:in-progress''} \<union> ({''tab:board:closed''}
          \<union> {''tab:board:blocked''})) \<and> k \<noteq> []
        \<and> stores (fst (then_do ?c1 (then_do ?c2 (then_do ?c3 ?c4)) a)) k \<noteq> None"
    by (rule then_do_subscribes
          [where ?K1.0 = "{''tab:board:ready''}"
             and ?K2.0 = "{''tab:board:in-progress''} \<union> ({''tab:board:closed''} \<union> {''tab:board:blocked''})",
           OF s1 s234 o234 _ sub])
       auto
  with True show ?thesis by (auto simp: board_keys_def board_tab_def)
next
  case False
  with assms show ?thesis
    by (auto simp: board_tab_def then_do_snd leave_column_def split: option.splits)
qed

lemma ensure_subscribes:
  assumes "SubscribeList k sp \<in> set (snd (ensureTabSubscriptions s a))"
  shows "k \<noteq> [] \<and> stores (fst (ensureTabSubscriptions s a)) k \<noteq> None"
proof -
  have eb: "\<And>a k sp. SubscribeList k sp \<in> set (snd (then_do (epics_tab s) (board_tab s) a))
              \<Longrightarrow> k \<in> {''tab:epics''} \<union> board_keys \<and> k \<noteq> []
                  \<and> stores (fst (then_do (epics_tab s) (board_tab s) a)) k \<noteq> None"
    by (rule then_do_subscribes
          [where ?K1.0 = "{''tab:epics''}" and ?K2.0 = board_keys,
           OF epics_tab_subscribes board_tab_subscribes board_tab_other])
       (auto simp: board_keys_def)
  have ebo: "\<And>a k. k \<notin> {''tab:epics''} \<union> board_keys
              \<Longrightarrow> stores (fst (then_do (epics_tab s) (board_tab s) a)) k = stores a k"
    by (rule then_do_other
          [where ?K1.0 = "{''tab:epics''}" and ?K2.0 = board_keys,
           OF epics_tab_other board_tab_other])
       auto
  have "k \<in> {''tab:issues''} \<union> ({''tab:epics''} \<union> board_keys) \<and> k \<noteq> []
        \<and> stores (fst (then_do (issues_tab s) (then_do (epics_tab s) (board_tab s)) a)) k \<noteq> None"
    by (rule then_do_subscribes
          [where ?K1.0 = "{''tab:issues''}" and ?K2.0 = "{''tab:epics''} \<union> board_keys",
           OF issues_tab_subscribes eb ebo])
       (use assms in \<open>auto simp: board_keys_def ensureTabSubscriptions_def\<close>)
  then show ?thesis by (simp add: ensureTabSubscriptions_def)
qed

lemma clear_subscribes:
  assumes "SubscribeList k sp \<in> set (snd (clearAndResubscribe s a))"
  shows "k \<noteq> [] \<and> stores (fst (clearAndResubscribe s a)) k \<noteq> None"
proof -
  obtain b where b: "snd (clearAndResubscribe s a)
                       = snd (release_all_tabs a)
                         @ snd (unregister_all
                                  ([''tab:issues'', ''tab:epics'', ''tab:board:ready'',
                                    ''tab:board:in-progress'', ''tab:board:closed'',
                                    ''tab:board:blocked'']
                                   @ (case selected_id s of
                                        Some i \<Rightarrow> (if i = [] then [] else [detail_key i])
                                      | None \<Rightarrow> [])) (fst (release_all_tabs a)))
                         @ snd (ensureTabSubscriptions s b)"
    and f: "fst (clearAndResubscribe s a) = fst (ensureTabSubscriptions s b)"
    by (simp add: clearAndResubscribe_def then_do_snd then_do_fst)
  from assms have "SubscribeList k sp \<in> set (snd (ensureTabSubscriptions s b))"
    unfolding b by (auto simp: release_all_tabs_def unregister_all_def)
  then show ?thesis unfolding f by (rule ensure_subscribes)
qed

lemma step_subscribes:
  assumes "SubscribeList k sp \<in> set (snd (step ev a))"
  shows "k \<noteq> [] \<and> stores (fst (step ev a)) k \<noteq> None"
proof (cases ev)
  case (RouteChange s)
  with assms show ?thesis by (simp add: step_def ensure_subscribes)
next
  case (DeepLink i)
  with assms show ?thesis
    by (auto simp: step_def detail_deep_link_def detail_key_def register_registers
             split: option.splits if_splits)
next
  case (SelectionChange s)
  with assms show ?thesis
    by (auto simp: step_def detail_selected_def detail_key_def register_registers
             split: option.splits if_splits)
next
  case (WorkspaceSwitch s)
  with assms show ?thesis by (simp add: step_def clear_subscribes)
next
  case (Toggle e)
  with assms show ?thesis
    by (auto simp: step_def toggle_def Let_def detail_key_def register_registers
             split: option.splits if_splits)
next
  case (Settle i ok)
  with assms show ?thesis by (simp add: step_def settle_no_subscribe)
next
  case (Push kind p)
  with assms show ?thesis
    by (simp add: step_def on_snapshot_def on_upsert_def on_delete_def route_push_no_subscribe
             split: if_splits)
qed

lemma map_filter_agree:
  "(\<And>x. x \<in> set xs \<Longrightarrow> f x = g x) \<Longrightarrow> List.map_filter f xs = List.map_filter g xs"
  by (induction xs) (auto split: option.splits)

lemma map_filter_append: "List.map_filter f (xs @ ys) = List.map_filter f xs @ List.map_filter f ys"
  by (simp add: List.map_filter_def)

lemma upsert_all_fresh:
  "distinct (membership m @ map issue_id items)
     \<Longrightarrow> List.map_filter (entities (fold upsert_item items m))
           (membership (fold upsert_item items m))
         = List.map_filter (entities m) (membership m) @ items"
proof (induction items arbitrary: m)
  case Nil
  then show ?case by simp
next
  case (Cons it items)
  let ?m = "upsert_item it m"
  have fresh: "issue_id it \<notin> set (membership m)"
    using Cons.prems by auto
  have mem: "membership ?m = membership m @ [issue_id it]"
    using fresh by (simp add: upsert_item_def)
  have ent: "List.map_filter (entities ?m) (membership m)
               = List.map_filter (entities m) (membership m)"
    using fresh by (intro map_filter_agree) (auto simp: upsert_item_def)
  have last: "List.map_filter (entities ?m) [issue_id it] = [it]"
    by (simp add: List.map_filter_def upsert_item_def)
  have "distinct (membership ?m @ map issue_id items)"
    using Cons.prems mem by auto
  from Cons.IH [OF this]
  have "List.map_filter (entities (fold upsert_item items ?m))
          (membership (fold upsert_item items ?m))
        = (List.map_filter (entities m) (membership m) @ [it]) @ items"
    unfolding mem map_filter_append ent last .
  then show ?case by simp
qed

lemma snapshot_observable:
  assumes "distinct (map issue_id items)" and "env_type p = JStr ''snapshot''"
    and "env_items p = items"
  shows "List.map_filter (entities (applyPush m p)) (membership (applyPush m p)) = items"
  using upsert_all_fresh [of "m\<lparr>membership := [], entities := Map.empty\<rparr>" items] assms
  by (simp add: applyPush_def)

lemma on_snapshot_observable:
  assumes "k \<noteq> []" and "stores a k \<noteq> None" and "distinct (map issue_id items)"
  shows "snapshotFor
           (stores (fst (on_snapshot
              (Some \<lparr>env_id = JStr k, env_type = JStr ''snapshot'', env_items = items,
                     env_ids = ids\<rparr>) a))) k = items"
  using assms snapshot_observable [of items
      "\<lparr>env_id = JStr k, env_type = JStr ''snapshot'', env_items = items, env_ids = ids\<rparr>"]
  by (auto simp: on_snapshot_def route_push_def getStore_def snapshotFor_def)

text \<open>
  Claim C1. Within one step every \<^verbatim>\<open>subscribeList(key, spec)\<close> comes after the
  \<^verbatim>\<open>register(key, spec)\<close> of the same step (\<open>rbs_step\<close>), but the snapshot that follows
  the resolution can still be dropped on the board. The board is opened: each column
  registers its store and subscribes. The workspace is switched while these subscribes
  are pending: \<^verbatim>\<open>clearAndResubscribe\<close> unregisters the six tab stores, and the board block
  of \<^verbatim>\<open>ensureTabSubscriptions\<close>, whose \<^verbatim>\<open>register\<close> is inside the guard on the in-flight
  set, registers nothing. The subscribe of \<^verbatim>\<open>tab:board:ready\<close> resolves and its handle is
  kept, there is no store for the key, and the snapshot that arrives is dropped:
  \<^verbatim>\<open>snapshotFor\<close> returns nothing. On the Issues tab, whose \<^verbatim>\<open>register\<close> is outside the
  guard, the same sequence of events keeps the snapshot.
\<close>

theorem board_snapshot_dropped_after_workspace_switch:
  "snd (step (RouteChange example_on_board) initial_app)
     = [Register ''tab:board:ready'' \<lparr>sp_type = ''ready-issues'', sp_params = None\<rparr>,
        SubscribeList ''tab:board:ready'' \<lparr>sp_type = ''ready-issues'', sp_params = None\<rparr>,
        Register ''tab:board:in-progress'' \<lparr>sp_type = ''in-progress-issues'', sp_params = None\<rparr>,
        SubscribeList ''tab:board:in-progress''
          \<lparr>sp_type = ''in-progress-issues'', sp_params = None\<rparr>,
        Register ''tab:board:closed'' \<lparr>sp_type = ''closed-issues'', sp_params = None\<rparr>,
        SubscribeList ''tab:board:closed'' \<lparr>sp_type = ''closed-issues'', sp_params = None\<rparr>,
        Register ''tab:board:blocked'' \<lparr>sp_type = ''blocked-issues'', sp_params = None\<rparr>,
        SubscribeList ''tab:board:blocked'' \<lparr>sp_type = ''blocked-issues'', sp_params = None\<rparr>]
   \<and> snd (step (WorkspaceSwitch example_on_board)
             (run [RouteChange example_on_board] initial_app))
       = map Unregister
           [''tab:issues'', ''tab:epics'', ''tab:board:ready'', ''tab:board:in-progress'',
            ''tab:board:closed'', ''tab:board:blocked'']
   \<and> snd (step (Settle 0 True)
             (run [RouteChange example_on_board, WorkspaceSwitch example_on_board] initial_app))
       = []
   \<and> unsub_board_ready (example_switched example_on_board)
       = Some (Release ''tab:board:ready'' \<lparr>sp_type = ''ready-issues'', sp_params = None\<rparr>)
   \<and> getStore (stores (example_switched example_on_board)) ''tab:board:ready'' = None
   \<and> step (Push ''snapshot'' (Some (example_snapshot ''tab:board:ready'' ''snapshot'')))
         (example_switched example_on_board)
       = (example_switched example_on_board, [])
   \<and> snapshotFor
         (stores (fst (step (Push ''snapshot''
                              (Some (example_snapshot ''tab:board:ready'' ''snapshot'')))
                         (example_switched example_on_board))))
         ''tab:board:ready''
       = []
   \<and> snapshotFor
         (stores (fst (step (Push ''snapshot'' (Some (example_snapshot ''tab:issues'' ''snapshot'')))
                         (example_switched example_state))))
         ''tab:issues''
       = [example_issue ''UI-1'' [] Missing, example_issue ''UI-2'' [] Missing]"
  by (simp add: step_def ensureTabSubscriptions_def then_do_def issues_tab_def
        epics_tab_def board_tab_def leave_column_def subscribe_column_def
        example_state_def example_filters_def example_on_board_def example_switched_def
        initial_app_def computeIssuesSpec_def string_or_all_def Let_def register_def
        unregister_def clearAndResubscribe_def release_all_tabs_def unregister_all_def
        settle_def settle_call_def tab_settled_def getStore_def snapshotFor_def
        on_snapshot_def route_push_def example_snapshot_def List.map_filter_def
        json_stringify_spec_def applyPush_def upsert_item_def example_issue_def)

text \<open>
  Claim C4. A push payload whose \<^verbatim>\<open>id\<close> names a key without a registered store is
  dropped by each of the three handlers, whatever its type and content: the wiring state,
  with every store in it, is unchanged, and nothing is notified, logged or raised.
\<close>

theorem push_for_unknown_key_dropped:
  assumes "env_id p = JStr k" and "getStore (stores a) k = None"
  shows "on_snapshot (Some p) a = (a, []) \<and> on_upsert (Some p) a = (a, [])
         \<and> on_delete (Some p) a = (a, []) \<and> step (Push kind (Some p)) a = (a, [])"
  using assms
  by (simp add: on_snapshot_def on_upsert_def on_delete_def step_def route_push_def)

theorem push_for_unknown_key_dropped_witness:
  "env_id (example_snapshot ''tab:epics'' ''snapshot'') = JStr ''tab:epics''
   \<and> getStore (stores example_wired) ''tab:epics'' = None
   \<and> on_snapshot (Some (example_snapshot ''tab:epics'' ''snapshot'')) example_wired
       = (example_wired, [])"
proof -
  have i: "env_id (example_snapshot ''tab:epics'' ''snapshot'') = JStr ''tab:epics''"
    by (simp add: example_snapshot_def)
  have g: "getStore (stores example_wired) ''tab:epics'' = None"
    by (simp add: example_wired_def getStore_def step_def ensureTabSubscriptions_def
          then_do_fst issues_tab_def epics_tab_def board_tab_def leave_column_def
          example_state_def example_filters_def initial_app_def Let_def register_def)
  from push_for_unknown_key_dropped [OF i g] show ?thesis using i g by simp
qed

text \<open>
  Claim C5, amended. A malformed payload (missing, without a non-empty string id, or with
  a type other than the event's kind) is dropped by each of the three handlers: the
  wiring state, with every store in it, is unchanged, and there is no effect at all, so
  no partial application, no notification and no log line.
\<close>

theorem malformed_push_dropped:
  "(malformed ''snapshot'' payload \<longrightarrow> on_snapshot payload a = (a, []))
   \<and> (malformed ''upsert'' payload \<longrightarrow> on_upsert payload a = (a, []))
   \<and> (malformed ''delete'' payload \<longrightarrow> on_delete payload a = (a, []))"
  by (auto simp: malformed_def on_snapshot_def on_upsert_def on_delete_def route_push_def
           split: option.splits jsval.splits)

text \<open>
  Claim C5, as stated, asks for a diagnostic log. A snapshot event whose payload names
  the registered key \<^verbatim>\<open>tab:issues\<close> with the unrecognised type \<^verbatim>\<open>bogus\<close> is dropped with
  no effect, hence without a log line.
\<close>

theorem malformed_push_no_log_counterexample:
  "malformed ''snapshot'' (Some (example_snapshot ''tab:issues'' ''bogus''))
   \<and> getStore (stores example_wired) ''tab:issues''
       = Some \<lparr>m_spec = \<lparr>sp_type = ''all-issues'', sp_params = None\<rparr>, membership = [],
               entities = Map.empty\<rparr>
   \<and> snd (on_snapshot (Some (example_snapshot ''tab:issues'' ''bogus'')) example_wired) = []"
  by (simp add: malformed_def example_snapshot_def on_snapshot_def route_push_def
        example_wired_def getStore_def step_def ensureTabSubscriptions_def
        then_do_fst issues_tab_def epics_tab_def board_tab_def leave_column_def
        example_state_def example_filters_def initial_app_def Let_def register_def
        computeIssuesSpec_def string_or_all_def)

theorem malformed_push_dropped_witness:
  "malformed ''snapshot'' (Some (example_snapshot ''tab:issues'' ''bogus''))
   \<and> on_snapshot (Some (example_snapshot ''tab:issues'' ''bogus'')) example_wired
       = (example_wired, [])"
proof -
  have m: "malformed ''snapshot'' (Some (example_snapshot ''tab:issues'' ''bogus''))"
    by (simp add: malformed_def example_snapshot_def)
  from malformed_push_dropped
         [where payload = "Some (example_snapshot ''tab:issues'' ''bogus'')" and a = example_wired]
  show ?thesis using m by blast
qed

lemma tracked_append:
  "tracked (a\<lparr>in_flight := in_flight a @ [c]\<rparr>)
     = tracked a @ (case pending_key_of c of Some k \<Rightarrow> [k] | None \<Rightarrow> [])"
  by (simp add: tracked_def map_filter_append split: option.splits)

lemma inv_then_do:
  "(\<And>a. pending_inv a \<Longrightarrow> pending_inv (fst (f a)))
     \<Longrightarrow> (\<And>a. pending_inv a \<Longrightarrow> pending_inv (fst (g a)))
     \<Longrightarrow> pending_inv a \<Longrightarrow> pending_inv (fst (then_do f g a))"
  by (simp add: then_do_fst)

lemma inv_issues_tab: "pending_inv a \<Longrightarrow> pending_inv (fst (issues_tab s a))"
  by (auto simp: pending_inv_def issues_tab_def Let_def tracked_def map_filter_append
        pending_key_of_def split: option.splits)

lemma inv_epics_tab: "pending_inv a \<Longrightarrow> pending_inv (fst (epics_tab s a))"
  by (auto simp: pending_inv_def epics_tab_def Let_def tracked_def map_filter_append
        pending_key_of_def split: option.splits)

lemma inv_subscribe_column:
  "pending_key_of \<lparr>call_site = st, call_id = key, call_spec = spec\<rparr> = Some key
     \<Longrightarrow> pending_inv a \<Longrightarrow> pending_inv (fst (subscribe_column u key spec st a))"
  by (auto simp: pending_inv_def subscribe_column_def tracked_def map_filter_append)

lemma inv_leave_column:
  "(\<And>b. pending_subscriptions (clear b) = pending_subscriptions b \<and> in_flight (clear b) = in_flight b)
     \<Longrightarrow> pending_inv a \<Longrightarrow> pending_inv (fst (leave_column u clear key a))"
  by (auto simp: pending_inv_def leave_column_def tracked_def split: option.splits)

lemma inv_board_tab: "pending_inv a \<Longrightarrow> pending_inv (fst (board_tab s a))"
  unfolding board_tab_def
  by (auto intro!: inv_then_do inv_subscribe_column inv_leave_column simp: pending_key_of_def)

lemma inv_ensure: "pending_inv a \<Longrightarrow> pending_inv (fst (ensureTabSubscriptions s a))"
  unfolding ensureTabSubscriptions_def
  by (intro inv_then_do inv_issues_tab inv_epics_tab inv_board_tab)

lemma inv_clear: "pending_inv a \<Longrightarrow> pending_inv (fst (clearAndResubscribe s a))"
  unfolding clearAndResubscribe_def
  by (intro inv_then_do inv_ensure)
     (auto simp: pending_inv_def tracked_def release_all_tabs_def unregister_all_def)

lemma map_filter_remove_nth:
  "i < length xs \<Longrightarrow>
     List.map_filter f (take i xs @ drop (Suc i) xs)
       = List.map_filter f (take i xs) @ List.map_filter f (drop (Suc i) xs)
     \<and> List.map_filter f xs
       = List.map_filter f (take i xs) @ (case f (xs ! i) of Some k \<Rightarrow> [k] | None \<Rightarrow> [])
         @ List.map_filter f (drop (Suc i) xs)"
proof -
  assume i: "i < length xs"
  then have "xs = take i xs @ xs ! i # drop (Suc i) xs"
    by (simp add: id_take_nth_drop)
  then have "List.map_filter f xs = List.map_filter f (take i xs @ xs ! i # drop (Suc i) xs)"
    by simp
  then show ?thesis
    by (simp add: map_filter_append split: option.splits)
qed

lemma settle_call_pending:
  "pending_subscriptions (fst (settle_call c ok a))
     = pending_subscriptions a - (case pending_key_of c of Some k \<Rightarrow> {k} | None \<Rightarrow> {})"
  by (simp add: settle_call_def tab_settled_def pending_key_of_def Let_def split: site.splits)

lemma settle_call_in_flight: "in_flight (fst (settle_call c ok a)) = in_flight a"
  by (simp add: settle_call_def tab_settled_def Let_def split: site.splits)

lemma inv_settle: "pending_inv a \<Longrightarrow> pending_inv (fst (settle i ok a))"
proof (cases "i < length (in_flight a)")
  case False
  assume "pending_inv a"
  with False show ?thesis by (simp add: settle_def)
next
  case True
  assume inv: "pending_inv a"
  let ?pre = "List.map_filter pending_key_of (take i (in_flight a))"
  let ?post = "List.map_filter pending_key_of (drop (Suc i) (in_flight a))"
  let ?mid = "case pending_key_of (in_flight a ! i) of Some k \<Rightarrow> [k] | None \<Rightarrow> []"
  from map_filter_remove_nth [OF True, of pending_key_of]
  have rest: "List.map_filter pending_key_of (take i (in_flight a) @ drop (Suc i) (in_flight a))
                = ?pre @ ?post"
    and all: "tracked a = ?pre @ ?mid @ ?post"
    by (simp_all add: tracked_def)
  from inv all have d: "distinct (?pre @ ?mid @ ?post)"
    and p: "pending_subscriptions a = set (?pre @ ?mid @ ?post)"
    by (simp_all add: pending_inv_def)
  show ?thesis
    using True d p rest
    by (auto simp: settle_def pending_inv_def tracked_def settle_call_pending
          settle_call_in_flight split: option.splits)
qed

lemma inv_route_push: "pending_inv a \<Longrightarrow> pending_inv (fst (route_push kind p a))"
  by (auto simp: pending_inv_def tracked_def route_push_def Let_def split: option.splits)

lemma inv_step: "pending_inv a \<Longrightarrow> pending_inv (fst (step ev a))"
proof (cases ev)
  case (RouteChange s)
  assume "pending_inv a"
  with RouteChange show ?thesis by (simp add: step_def inv_ensure)
next
  case (DeepLink i)
  assume "pending_inv a"
  with DeepLink show ?thesis
    by (auto simp: step_def detail_deep_link_def pending_inv_def tracked_def map_filter_append
          pending_key_of_def split: option.splits)
next
  case (SelectionChange s)
  assume "pending_inv a"
  with SelectionChange show ?thesis
    by (auto simp: step_def detail_selected_def pending_inv_def tracked_def map_filter_append
          pending_key_of_def split: option.splits)
next
  case (WorkspaceSwitch s)
  assume "pending_inv a"
  with WorkspaceSwitch show ?thesis by (simp add: step_def inv_clear)
next
  case (Toggle e)
  assume "pending_inv a"
  with Toggle show ?thesis
    by (auto simp: step_def toggle_def Let_def pending_inv_def tracked_def map_filter_append
          pending_key_of_def split: option.splits)
next
  case (Settle i ok)
  assume "pending_inv a"
  with Settle show ?thesis by (simp add: step_def inv_settle)
next
  case (Push kind p)
  assume "pending_inv a"
  with Push show ?thesis
    by (simp add: step_def on_snapshot_def on_upsert_def on_delete_def inv_route_push)
qed

lemma inv_run: "pending_inv a \<Longrightarrow> pending_inv (run evs a)"
  by (induction evs arbitrary: a) (simp_all add: inv_step)

lemma inv_initial: "pending_inv initial_app"
  by (simp add: pending_inv_def initial_app_def tracked_def)

lemma then_do_suppressed:
  assumes f: "\<And>a k sp. SubscribeList k sp \<in> set (snd (f a)) \<Longrightarrow> pending_key k sp \<notin> pending_subscriptions a"
    and g: "\<And>a k sp. SubscribeList k sp \<in> set (snd (g a)) \<Longrightarrow> pending_key k sp \<notin> pending_subscriptions a"
    and mono: "\<And>a. pending_subscriptions a \<subseteq> pending_subscriptions (fst (f a))"
    and sub: "SubscribeList k sp \<in> set (snd (then_do f g a))"
  shows "pending_key k sp \<notin> pending_subscriptions a"
proof -
  from sub have "SubscribeList k sp \<in> set (snd (f a))
                 \<or> SubscribeList k sp \<in> set (snd (g (fst (f a))))"
    by (simp add: then_do_snd)
  then show ?thesis
  proof
    assume "SubscribeList k sp \<in> set (snd (f a))"
    then show ?thesis by (rule f)
  next
    assume "SubscribeList k sp \<in> set (snd (g (fst (f a))))"
    from g [OF this] mono [of a] show ?thesis by auto
  qed
qed

lemma then_do_pending_mono:
  "(\<And>a. pending_subscriptions a \<subseteq> pending_subscriptions (fst (f a)))
     \<Longrightarrow> (\<And>a. pending_subscriptions a \<subseteq> pending_subscriptions (fst (g a)))
     \<Longrightarrow> pending_subscriptions a \<subseteq> pending_subscriptions (fst (then_do f g a))"
  by (simp add: then_do_fst) blast

lemma issues_tab_suppressed:
  "SubscribeList k sp \<in> set (snd (issues_tab s a)) \<Longrightarrow> pending_key k sp \<notin> pending_subscriptions a"
  by (auto simp: issues_tab_def Let_def pending_key_def split: option.splits if_splits)

lemma issues_tab_pending_mono:
  "pending_subscriptions a \<subseteq> pending_subscriptions (fst (issues_tab s a))"
  by (auto simp: issues_tab_def Let_def split: option.splits)

lemma epics_tab_suppressed:
  "SubscribeList k sp \<in> set (snd (epics_tab s a)) \<Longrightarrow> pending_key k sp \<notin> pending_subscriptions a"
  by (auto simp: epics_tab_def Let_def pending_key_def split: option.splits if_splits)

lemma epics_tab_pending_mono:
  "pending_subscriptions a \<subseteq> pending_subscriptions (fst (epics_tab s a))"
  by (auto simp: epics_tab_def Let_def split: option.splits)

lemma subscribe_column_suppressed:
  "key \<noteq> ''tab:issues'' \<Longrightarrow> SubscribeList k sp \<in> set (snd (subscribe_column u key spec st a))
     \<Longrightarrow> pending_key k sp \<notin> pending_subscriptions a"
  by (auto simp: subscribe_column_def pending_key_def split: if_splits)

lemma subscribe_column_pending_mono:
  "pending_subscriptions a \<subseteq> pending_subscriptions (fst (subscribe_column u key spec st a))"
  by (auto simp: subscribe_column_def)

lemma leave_column_suppressed:
  "SubscribeList k sp \<in> set (snd (leave_column u c key a))
     \<Longrightarrow> pending_key k sp \<notin> pending_subscriptions a"
  by (auto simp: leave_column_def split: option.splits)

lemma board_tab_suppressed:
  "SubscribeList k sp \<in> set (snd (board_tab s a)) \<Longrightarrow> pending_key k sp \<notin> pending_subscriptions a"
proof (cases "view s = ''board''")
  case True
  assume sub: "SubscribeList k sp \<in> set (snd (board_tab s a))"
  show ?thesis
    using sub unfolding board_tab_def if_P [OF True]
    by (elim then_do_suppressed [rotated -1] subscribe_column_suppressed [rotated])
       (simp_all add: subscribe_column_pending_mono)
next
  case False
  assume "SubscribeList k sp \<in> set (snd (board_tab s a))"
  with False show ?thesis
    by (auto simp: board_tab_def then_do_snd leave_column_def split: option.splits)
qed

lemma ensure_suppressed:
  assumes "SubscribeList k sp \<in> set (snd (ensureTabSubscriptions s a))"
  shows "pending_key k sp \<notin> pending_subscriptions a"
proof -
  have eb: "\<And>a k sp. SubscribeList k sp \<in> set (snd (then_do (epics_tab s) (board_tab s) a))
              \<Longrightarrow> pending_key k sp \<notin> pending_subscriptions a"
    by (rule then_do_suppressed [OF epics_tab_suppressed board_tab_suppressed epics_tab_pending_mono])
  show ?thesis
    using assms unfolding ensureTabSubscriptions_def
    by (rule then_do_suppressed [OF issues_tab_suppressed eb issues_tab_pending_mono, rotated -1])
qed

lemma clear_suppressed:
  assumes "SubscribeList k sp \<in> set (snd (clearAndResubscribe s a))"
  shows "pending_key k sp \<notin> pending_subscriptions a"
proof -
  obtain b where b: "SubscribeList k sp \<in> set (snd (ensureTabSubscriptions s b))"
    and p: "pending_subscriptions b = pending_subscriptions a"
    using assms
    by (auto simp: clearAndResubscribe_def then_do_snd then_do_fst release_all_tabs_def
          unregister_all_def)
  from ensure_suppressed [OF b] p show ?thesis by simp
qed

text \<open>
  Claim C2, amended to the tab subscriptions. In every state the wiring can reach: each
  pending tab subscription (\<^verbatim>\<open>tab:issues\<close> with its spec fingerprint, \<^verbatim>\<open>tab:epics\<close>, the
  four \<^verbatim>\<open>tab:board:*\<close> keys) has its key in the in-flight set; no two pending tab
  subscriptions have the same key; a route change or workspace switch issues a subscribe
  only for a key that is not in the in-flight set, so none for a key whose subscribe is
  pending; and when a pending tab subscription settles, resolved or rejected, its key
  is no longer in the set.
\<close>

theorem tab_subscriptions_deduplicated:
  "(let a = run evs initial_app
    in (\<forall>c \<in> set (in_flight a). \<forall>pk. pending_key_of c = Some pk \<longrightarrow> pk \<in> pending_subscriptions a)
       \<and> distinct (tracked a)
       \<and> (\<forall>s k sp. SubscribeList k sp \<in> set (snd (step (RouteChange s) a))
                      \<union> set (snd (step (WorkspaceSwitch s) a))
                    \<longrightarrow> pending_key k sp \<notin> pending_subscriptions a)
       \<and> (\<forall>i ok pk. i < length (in_flight a) \<and> pending_key_of (in_flight a ! i) = Some pk
                    \<longrightarrow> pk \<notin> pending_subscriptions (fst (step (Settle i ok) a))))"
proof -
  let ?a = "run evs initial_app"
  have inv: "pending_inv ?a"
    by (rule inv_run [OF inv_initial])
  have 1: "\<forall>c \<in> set (in_flight ?a). \<forall>pk. pending_key_of c = Some pk \<longrightarrow> pk \<in> pending_subscriptions ?a"
    using inv by (force simp: pending_inv_def tracked_def List.map_filter_def)
  have 2: "distinct (tracked ?a)"
    using inv by (simp add: pending_inv_def)
  have 3: "\<forall>s k sp. SubscribeList k sp \<in> set (snd (step (RouteChange s) ?a))
                      \<union> set (snd (step (WorkspaceSwitch s) ?a))
                    \<longrightarrow> pending_key k sp \<notin> pending_subscriptions ?a"
    by (auto simp: step_def dest: ensure_suppressed clear_suppressed)
  have 4: "\<forall>i ok pk. i < length (in_flight ?a) \<and> pending_key_of (in_flight ?a ! i) = Some pk
                    \<longrightarrow> pk \<notin> pending_subscriptions (fst (step (Settle i ok) ?a))"
    by (simp add: step_def settle_def settle_call_pending)
  show ?thesis
    unfolding Let_def using 1 2 3 4 by blast
qed

text \<open>
  Claim C2, as stated for every subscription key, fails for a detail key: with
  \<^verbatim>\<open>UI-1\<close> selected, the selection subscriber subscribes \<^verbatim>\<open>detail:UI-1\<close>; while that
  promise is pending the in-flight set is empty, and a second run of the subscriber (any
  further state change) calls \<^verbatim>\<open>subscribeList\<close> for the same key and spec again.
\<close>

theorem detail_subscribe_not_deduplicated_counterexample:
  "snd (step (SelectionChange example_selected) initial_app)
     = [Register (detail_key ''UI-1'') (detail_spec ''UI-1''),
        SubscribeList (detail_key ''UI-1'') (detail_spec ''UI-1'')]
   \<and> map call_id (in_flight (fst (step (SelectionChange example_selected) initial_app)))
       = [detail_key ''UI-1'']
   \<and> pending_subscriptions (fst (step (SelectionChange example_selected) initial_app)) = {}
   \<and> snd (step (SelectionChange example_selected)
             (fst (step (SelectionChange example_selected) initial_app)))
       = [Register (detail_key ''UI-1'') (detail_spec ''UI-1''),
          SubscribeList (detail_key ''UI-1'') (detail_spec ''UI-1'')]"
  by (simp add: step_def detail_selected_def example_selected_def example_state_def
        initial_app_def)

lemma example_wired_eq:
  "example_wired =
     initial_app
       \<lparr>stores := [''tab:issues'' \<mapsto> \<lparr>m_spec = \<lparr>sp_type = ''all-issues'', sp_params = None\<rparr>,
                                     membership = [], entities = Map.empty\<rparr>],
        pending_subscriptions :=
          {''tab:issues:'' @ json_stringify_spec \<lparr>sp_type = ''all-issues'', sp_params = None\<rparr>},
        in_flight :=
          [\<lparr>call_site = IssuesTab (json_stringify_spec \<lparr>sp_type = ''all-issues'', sp_params = None\<rparr>),
            call_id = ''tab:issues'',
            call_spec = \<lparr>sp_type = ''all-issues'', sp_params = None\<rparr>\<rparr>]\<rparr>"
  by (simp add: example_wired_def step_def ensureTabSubscriptions_def then_do_fst issues_tab_def
        epics_tab_def board_tab_def leave_column_def example_state_def example_filters_def
        initial_app_def Let_def register_def computeIssuesSpec_def string_or_all_def)

theorem tab_subscriptions_deduplicated_witness:
  "in_flight (run [RouteChange example_state] initial_app)
     = [\<lparr>call_site = IssuesTab (json_stringify_spec \<lparr>sp_type = ''all-issues'', sp_params = None\<rparr>),
         call_id = ''tab:issues'',
         call_spec = \<lparr>sp_type = ''all-issues'', sp_params = None\<rparr>\<rparr>]
   \<and> ''tab:issues:'' @ json_stringify_spec \<lparr>sp_type = ''all-issues'', sp_params = None\<rparr>
       \<in> pending_subscriptions (run [RouteChange example_state] initial_app)
   \<and> ''tab:issues:'' @ json_stringify_spec \<lparr>sp_type = ''all-issues'', sp_params = None\<rparr>
       \<notin> pending_subscriptions
           (fst (step (Settle 0 False) (run [RouteChange example_state] initial_app)))"
proof -
  have r: "run [RouteChange example_state] initial_app = example_wired"
    by (simp add: example_wired_def)
  have f: "in_flight example_wired
     = [\<lparr>call_site = IssuesTab (json_stringify_spec \<lparr>sp_type = ''all-issues'', sp_params = None\<rparr>),
         call_id = ''tab:issues'',
         call_spec = \<lparr>sp_type = ''all-issues'', sp_params = None\<rparr>\<rparr>]"
    by (simp add: example_wired_eq)
  have k: "pending_key_of (in_flight example_wired ! 0)
             = Some (''tab:issues:'' @ json_stringify_spec \<lparr>sp_type = ''all-issues'', sp_params = None\<rparr>)"
    by (simp add: f pending_key_of_def)
  from tab_subscriptions_deduplicated [of "[RouteChange example_state]"]
  show ?thesis
    unfolding Let_def r using f k by force
qed

subsection \<open>Requests on the transport\<close>


























section \<open>Properties of workspace discovery\<close>

lemma fold_insert_seen:
  "fold (\<lambda>w s. insert (f w) s) ws seen = seen \<union> f ` set ws"
  by (induction ws arbitrary: seen) auto

lemma seen_after_in_memory:
  "seen \<union> f ` set (filter (\<lambda>w. f w \<notin> seen) ws) = seen \<union> f ` set ws"
  by auto

text \<open>
  Claim C8. The result is the file-registry entries (all of them, in order), followed by
  the in-memory registrations whose resolved path is the resolved path of no file entry,
  followed by the discovered workspaces whose resolved path is the resolved path of no
  file entry and of no in-memory registration: on a collision of resolved paths the file
  registry wins over an in-memory registration, which wins over a directory scan.
\<close>

theorem getAvailableWorkspaces_precedence:
  "getAvailableWorkspaces resolve entries mem disc =
     map fileWorkspace entries
     @ filter (\<lambda>w. resolve (ws_path w) \<notin> (\<lambda>e. resolve (workspace_path e)) ` set entries) mem
     @ filter (\<lambda>w. resolve (ws_path w) \<notin>
                 (\<lambda>e. resolve (workspace_path e)) ` set entries
                 \<union> (\<lambda>m. resolve (ws_path m)) ` set mem) disc"
proof -
  let ?f = "\<lambda>w. resolve (ws_path w)"
  let ?seen = "set (map ?f (map fileWorkspace entries))"
  have seen: "?seen = (\<lambda>e. resolve (workspace_path e)) ` set entries"
    by (auto simp: fileWorkspace_def)
  have "fold (\<lambda>w s. insert (?f w) s) (filter (\<lambda>w. ?f w \<notin> ?seen) mem) ?seen
          = ?seen \<union> ?f ` set mem"
    using seen_after_in_memory [of ?seen ?f mem]
    by (simp only: fold_insert_seen)
  then show ?thesis
    unfolding getAvailableWorkspaces_def Let_def seen by simp
qed


theorem getAvailableWorkspaces_precedence_witness:
  "getAvailableWorkspaces (\<lambda>p. p) [example_entry ''/w/a'']
     [example_descriptor ''/w/a'' ''dynamic'', example_descriptor ''/w/b'' ''dynamic'']
     [example_descriptor ''/w/b'' ''discovered'', example_descriptor ''/w/c'' ''discovered'']
   = [fileWorkspace (example_entry ''/w/a''), example_descriptor ''/w/b'' ''dynamic'',
      example_descriptor ''/w/c'' ''discovered'']"
  using getAvailableWorkspaces_precedence [of "\<lambda>p. p" "[example_entry ''/w/a'']"
      "[example_descriptor ''/w/a'' ''dynamic'', example_descriptor ''/w/b'' ''dynamic'']"
      "[example_descriptor ''/w/b'' ''discovered'', example_descriptor ''/w/c'' ''discovered'']"]
  by (simp add: example_entry_def example_descriptor_def)

end
